theory Spec2Isabelle
  imports Main
begin

section \<open>Heap-backed block storage (\<open>block_storage_heap.hpp\<close>)\<close>

text \<open>
  The class \<open>block_storage_heap<Heap, GrowthPolicy>\<close> owns one memory block and one
  allocator handle. Its member functions are embedded as functions that take the object
  and the state of the rest of the program (the "world": the allocator's internal state,
  the record of calls made to the allocator, and the objects living in raw memory) and
  return an outcome, the updated object and the updated world. A C++ exception is an
  outcome \<open>Inl e\<close>; a normal return is \<open>Inr ()\<close>.
\<close>

subsection \<open>Collaborators that the header only uses\<close>

datatype error = AllocationFailure | CapacityExceeded | ElementTransferFailure

text \<open>
  Modelled from the spec: the type \<open>memory_block\<close> (declared in \<open>block_storage.hpp\<close>,
  which is not part of the sources at hand). A block is a start address and a size in
  bytes; address \<open>0\<close> is the null pointer, and the default-constructed block \<open>{}\<close> is the
  canonical empty block.
\<close>

record memory_block =
  address :: nat
  block_size :: nat

definition empty_block :: memory_block where
  "empty_block = \<lparr>address = 0, block_size = 0\<rparr>"

definition empty :: "memory_block \<Rightarrow> bool" where
  "empty b = (block_size b = 0)"

text \<open>
  Modelled from the spec: the type \<open>block_view<T>\<close> (declared in \<open>block_view.hpp\<close>, not
  part of the sources at hand): the address of the first constructed element and the
  number of constructed elements. \<open>view_size\<close> is its member \<open>size()\<close>.
\<close>

record block_view =
  base :: nat
  count :: nat

definition view_size :: "block_view \<Rightarrow> nat" where
  "view_size v = count v"

text \<open>
  What the header needs to know of the element type \<open>T\<close>: \<open>sizeof(T)\<close>, \<open>alignof(T)\<close>, and
  whether move-constructing from an object of a given value throws. A successful move
  construction gives the new object the value of its source.
\<close>

record 'a elem_type =
  sizeof :: nat
  alignof :: nat
  move_raises :: "'a \<Rightarrow> error option"

text \<open>
  The \<open>Heap\<close> template parameter, as the header calls it:
  \<open>Heap::allocate(handle, size, alignment)\<close> returns a block or throws, and may change
  the allocator's internal state \<open>'hs\<close> either way; \<open>Heap::deallocate(handle, block)\<close>
  returns nothing and, by its contract, does not throw (its callers are \<open>noexcept\<close>);
  \<open>Heap::max_size(handle)\<close> is pure.
\<close>

record ('h, 'hs) Heap =
  allocate_fn :: "'hs \<Rightarrow> 'h \<Rightarrow> nat \<Rightarrow> nat \<Rightarrow> (error + memory_block) \<times> 'hs"
  deallocate_fn :: "'hs \<Rightarrow> 'h \<Rightarrow> memory_block \<Rightarrow> 'hs"
  max_size_fn :: "'h \<Rightarrow> nat"

text \<open>
  The \<open>GrowthPolicy\<close> template parameter: two pure static functions; \<open>growth_size\<close>
  may throw instead of returning a size.
\<close>

record GrowthPolicy =
  growth_size :: "nat \<Rightarrow> nat \<Rightarrow> nat \<Rightarrow> error + nat"
  shrink_size :: "nat \<Rightarrow> nat \<Rightarrow> nat"

text \<open>
  \<open>size_type\<close> is \<open>std::size_t\<close>, taken as 64 bits wide: the one product the header
  computes wraps around.
\<close>

definition size_type_wrap :: "nat \<Rightarrow> nat" where
  "size_type_wrap n = n mod 2 ^ 64"

subsection \<open>The world around a storage object\<close>

text \<open>
  Every call of \<open>Heap::allocate\<close> and \<open>Heap::deallocate\<close> is recorded, with its arguments
  and, for \<open>allocate\<close>, its result.
\<close>

datatype 'h heap_call =
  Allocate 'h nat nat "error + memory_block"
  | Deallocate 'h memory_block

record ('a, 'h, 'hs) world =
  heap :: 'hs
  calls :: "'h heap_call list"
  objects :: "nat \<Rightarrow> 'a option"

definition Heap_allocate ::
  "('h, 'hs) Heap \<Rightarrow> 'h \<Rightarrow> nat \<Rightarrow> nat \<Rightarrow> ('a, 'h, 'hs) world
    \<Rightarrow> (error + memory_block) \<times> ('a, 'h, 'hs) world" where
  "Heap_allocate H h n al w =
     (case allocate_fn H (heap w) h n al of
        (r, hs) \<Rightarrow> (r, w\<lparr>heap := hs, calls := calls w @ [Allocate h n al r]\<rparr>))"

definition Heap_deallocate ::
  "('h, 'hs) Heap \<Rightarrow> 'h \<Rightarrow> memory_block \<Rightarrow> ('a, 'h, 'hs) world \<Rightarrow> ('a, 'h, 'hs) world" where
  "Heap_deallocate H h b w =
     w\<lparr>heap := deallocate_fn H (heap w) h b, calls := calls w @ [Deallocate h b]\<rparr>"

text \<open>
  The blocks that are allocated and not yet deallocated, read off the record of calls:
  a successful \<open>allocate\<close> adds its block under its handle, a \<open>deallocate\<close> takes one
  such entry away.
\<close>

fun track :: "('h \<times> memory_block) list \<Rightarrow> 'h heap_call \<Rightarrow> ('h \<times> memory_block) list" where
  "track live (Allocate h n al (Inr b)) = (h, b) # live"
| "track live (Allocate h n al (Inl e)) = live"
| "track live (Deallocate h b) = remove1 (h, b) live"

definition outstanding :: "'h heap_call list \<Rightarrow> ('h \<times> memory_block) list" where
  "outstanding cs = foldl track [] cs"

subsection \<open>The transfer algorithm\<close>

text \<open>
  Modelled from the spec: \<open>uninitialized_destructive_move\<close> (declared in a header that is
  not part of the sources at hand). For index \<open>i\<close> from \<open>0\<close> to \<open>N - 1\<close> it move-constructs
  a new \<open>T\<close> at \<open>target[i]\<close> from \<open>source[i]\<close> and then destroys \<open>source[i]\<close>. If the move
  construction at index \<open>k\<close> throws, the elements \<open>0..k-1\<close> already constructed in the
  target are destroyed and the error is propagated. \<open>move_range\<close> is the loop from index
  \<open>i\<close> with \<open>k\<close> elements to go; it returns the index and error of the move that threw, if
  one did. A slot of the view that holds no object is outside what the spec describes;
  the model leaves it alone.
\<close>

fun move_range ::
  "'a elem_type \<Rightarrow> nat \<Rightarrow> nat \<Rightarrow> nat \<Rightarrow> nat \<Rightarrow> (nat \<Rightarrow> 'a option)
    \<Rightarrow> (nat \<times> error) option \<times> (nat \<Rightarrow> 'a option)" where
  "move_range T src dst i 0 mem = (None, mem)"
| "move_range T src dst i (Suc k) mem =
     (case mem (src + i * sizeof T) of
        None \<Rightarrow> move_range T src dst (Suc i) k mem
      | Some x \<Rightarrow>
          (case move_raises T x of
             Some e \<Rightarrow> (Some (i, e), mem)
           | None \<Rightarrow>
               move_range T src dst (Suc i) k
                 (mem(dst + i * sizeof T := Some x, src + i * sizeof T := None))))"

fun destroy_range :: "'a elem_type \<Rightarrow> nat \<Rightarrow> nat \<Rightarrow> (nat \<Rightarrow> 'a option) \<Rightarrow> (nat \<Rightarrow> 'a option)" where
  "destroy_range T dst 0 mem = mem"
| "destroy_range T dst (Suc k) mem = (destroy_range T dst k mem)(dst + k * sizeof T := None)"

definition uninitialized_destructive_move ::
  "'a elem_type \<Rightarrow> block_view \<Rightarrow> memory_block \<Rightarrow> (nat \<Rightarrow> 'a option)
    \<Rightarrow> (error + unit) \<times> (nat \<Rightarrow> 'a option)" where
  "uninitialized_destructive_move T constructed new_block mem =
     (case move_range T (base constructed) (address new_block) 0 (view_size constructed) mem of
        (None, mem') \<Rightarrow> (Inr (), mem')
      | (Some (k, e), mem') \<Rightarrow> (Inl e, destroy_range T (address new_block) k mem'))"

subsection \<open>The class \<open>block_storage_heap\<close>\<close>

text \<open>
  The object: the allocator handle and the member \<open>block_\<close>, here \<open>block_field\<close>.
  Modelled from the spec: the base class \<open>argument_storage\<close> (not part of the sources at
  hand) keeps the handle; its \<open>stored_argument()\<close> returns the handle and its
  \<open>swap_argument\<close> exchanges the handles of two objects.
\<close>

record 'h block_storage_heap =
  stored_argument :: 'h
  block_field :: memory_block

text \<open>The constructor stores the handle; \<open>block_\<close> is default-constructed.\<close>

definition construct :: "'h \<Rightarrow> ('a, 'h, 'hs) world \<Rightarrow> 'h block_storage_heap \<times> ('a, 'h, 'hs) world" where
  "construct arg w = (\<lparr>stored_argument = arg, block_field = empty_block\<rparr>, w)"

text \<open>
  The accessors, and the static \<open>max_size\<close>. Modelled from the spec: the free function
  \<open>max_size<block_storage_heap>(argument())\<close> that \<open>reserve\<close> calls (not part of the sources
  at hand) forwards to the static member.
\<close>

definition block :: "'h block_storage_heap \<Rightarrow> memory_block" where
  "block s = block_field s"

definition argument :: "'h block_storage_heap \<Rightarrow> 'h" where
  "argument s = stored_argument s"

definition max_size :: "('h, 'hs) Heap \<Rightarrow> 'h \<Rightarrow> nat" where
  "max_size H handle = max_size_fn H handle"

text \<open>The private members, then \<open>reserve\<close> and \<open>shrink_to_fit\<close>.\<close>

definition deallocate_block ::
  "('h, 'hs) Heap \<Rightarrow> 'h block_storage_heap \<Rightarrow> memory_block \<Rightarrow> ('a, 'h, 'hs) world
    \<Rightarrow> ('a, 'h, 'hs) world" where
  "deallocate_block H s b w =
     (if \<not> empty b then Heap_deallocate H (stored_argument s) b w else w)"

definition allocate_block ::
  "('h, 'hs) Heap \<Rightarrow> 'h block_storage_heap \<Rightarrow> nat \<Rightarrow> nat \<Rightarrow> ('a, 'h, 'hs) world
    \<Rightarrow> (error + memory_block) \<times> ('a, 'h, 'hs) world" where
  "allocate_block H s n alignment w =
     (if n = 0 then (Inr empty_block, w)
      else Heap_allocate H (stored_argument s) n alignment w)"

definition change_block ::
  "'a elem_type \<Rightarrow> ('h, 'hs) Heap \<Rightarrow> block_view \<Rightarrow> memory_block \<Rightarrow> 'h block_storage_heap
    \<Rightarrow> ('a, 'h, 'hs) world \<Rightarrow> (error + unit) \<times> 'h block_storage_heap \<times> ('a, 'h, 'hs) world" where
  "change_block T H constructed new_block s w =
     (case uninitialized_destructive_move T constructed new_block (objects w) of
        (Inl e, mem) \<Rightarrow> (Inl e, s, deallocate_block H s new_block (w\<lparr>objects := mem\<rparr>))
      | (Inr u, mem) \<Rightarrow>
          (Inr (), s\<lparr>block_field := new_block\<rparr>,
           deallocate_block H s (block_field s) (w\<lparr>objects := mem\<rparr>)))"

definition reserve ::
  "'a elem_type \<Rightarrow> ('h, 'hs) Heap \<Rightarrow> GrowthPolicy \<Rightarrow> nat \<Rightarrow> block_view \<Rightarrow> 'h block_storage_heap
    \<Rightarrow> ('a, 'h, 'hs) world \<Rightarrow> (error + unit) \<times> 'h block_storage_heap \<times> ('a, 'h, 'hs) world" where
  "reserve T H GP min_additional_bytes constructed s w =
     (case growth_size GP (block_size (block_field s)) min_additional_bytes (max_size H (argument s)) of
        Inl e \<Rightarrow> (Inl e, s, w)
      | Inr new_size \<Rightarrow>
          (case allocate_block H s new_size (alignof T) w of
             (Inl e, w1) \<Rightarrow> (Inl e, s, w1)
           | (Inr new_block, w1) \<Rightarrow> change_block T H constructed new_block s w1))"

definition shrink_to_fit ::
  "'a elem_type \<Rightarrow> ('h, 'hs) Heap \<Rightarrow> GrowthPolicy \<Rightarrow> block_view \<Rightarrow> 'h block_storage_heap
    \<Rightarrow> ('a, 'h, 'hs) world \<Rightarrow> (error + unit) \<times> 'h block_storage_heap \<times> ('a, 'h, 'hs) world" where
  "shrink_to_fit T H GP constructed s w =
     (let byte_size = size_type_wrap (view_size constructed * sizeof T);
          new_size = shrink_size GP (block_size (block_field s)) byte_size
      in case allocate_block H s new_size (alignof T) w of
           (Inl e, w1) \<Rightarrow> (Inl e, s, w1)
         | (Inr new_block, w1) \<Rightarrow> change_block T H constructed new_block s w1)"

text \<open>
  \<open>swap\<close> is \<open>noexcept\<close>: it exchanges the stored handles (\<open>swap_argument\<close> of the base
  class), the two \<open>block_\<close> members and the two views, each through a temporary. The two
  objects are distinct, and so are the two view variables.
\<close>

definition swap ::
  "'h block_storage_heap \<Rightarrow> block_view \<Rightarrow> 'h block_storage_heap \<Rightarrow> block_view
    \<Rightarrow> ('a, 'h, 'hs) world
    \<Rightarrow> (error + unit) \<times> ('h block_storage_heap \<times> block_view \<times> 'h block_storage_heap \<times> block_view)
        \<times> ('a, 'h, 'hs) world" where
  "swap lhs lhs_constructed rhs rhs_constructed w =
     (let lhs1 = lhs\<lparr>stored_argument := stored_argument rhs\<rparr>;
          rhs1 = rhs\<lparr>stored_argument := stored_argument lhs\<rparr>;
          lhs2 = lhs1\<lparr>block_field := block_field rhs1\<rparr>;
          rhs2 = rhs1\<lparr>block_field := block_field lhs1\<rparr>
      in (Inr (), (lhs2, rhs_constructed, rhs2, lhs_constructed), w))"

text \<open>The destructor, \<open>noexcept\<close>: it hands \<open>block_\<close> to \<open>deallocate_block\<close>.\<close>

definition destroy ::
  "('h, 'hs) Heap \<Rightarrow> 'h block_storage_heap \<Rightarrow> ('a, 'h, 'hs) world
    \<Rightarrow> (error + unit) \<times> ('a, 'h, 'hs) world" where
  "destroy H s w = (Inr (), deallocate_block H s (block_field s) w)"

subsection \<open>Well-formed views and the contracts of the collaborators\<close>

text \<open>
  A view is well-formed for a storage object when it lies within the object's block and
  every element it describes is alive. \<open>growth_size_ok\<close>, \<open>shrink_size_ok\<close> and
  \<open>allocate_ok\<close> say that one particular call of the collaborator kept its contract:
  the policy returned a size in the required range; the allocator returned a block at
  least as large as requested that does not overlap the block the object holds.
  \<open>allocate_exact\<close> says that the allocator returned exactly the size requested;
  \<open>allocated_size\<close> is the size of the block it returned, if it returned one.
\<close>

definition view_within :: "'a elem_type \<Rightarrow> block_view \<Rightarrow> memory_block \<Rightarrow> bool" where
  "view_within T v b =
     (address b \<le> base v \<and> base v + count v * sizeof T \<le> address b + block_size b)"

definition view_live :: "'a elem_type \<Rightarrow> block_view \<Rightarrow> (nat \<Rightarrow> 'a option) \<Rightarrow> bool" where
  "view_live T v mem = list_all (\<lambda>i. mem (base v + i * sizeof T) \<noteq> None) [0..<count v]"

definition blocks_disjoint :: "memory_block \<Rightarrow> memory_block \<Rightarrow> bool" where
  "blocks_disjoint a b =
     (address a + block_size a \<le> address b \<or> address b + block_size b \<le> address a)"

definition growth_size_ok :: "GrowthPolicy \<Rightarrow> nat \<Rightarrow> nat \<Rightarrow> nat \<Rightarrow> bool" where
  "growth_size_ok GP old_bytes min_additional_bytes max_bytes =
     (case growth_size GP old_bytes min_additional_bytes max_bytes of
        Inl e \<Rightarrow> True
      | Inr n \<Rightarrow> old_bytes + min_additional_bytes \<le> n \<and> n \<le> max_bytes)"

definition shrink_size_ok :: "GrowthPolicy \<Rightarrow> nat \<Rightarrow> nat \<Rightarrow> bool" where
  "shrink_size_ok GP old_bytes live_bytes = (live_bytes \<le> shrink_size GP old_bytes live_bytes)"

definition allocate_ok ::
  "('h, 'hs) Heap \<Rightarrow> 'hs \<Rightarrow> 'h \<Rightarrow> nat \<Rightarrow> nat \<Rightarrow> memory_block \<Rightarrow> bool" where
  "allocate_ok H hs h n al current =
     (case fst (allocate_fn H hs h n al) of
        Inl e \<Rightarrow> True
      | Inr b \<Rightarrow> n \<le> block_size b \<and> blocks_disjoint b current)"

definition allocate_exact :: "('h, 'hs) Heap \<Rightarrow> 'hs \<Rightarrow> 'h \<Rightarrow> nat \<Rightarrow> nat \<Rightarrow> bool" where
  "allocate_exact H hs h n al =
     (case fst (allocate_fn H hs h n al) of Inl e \<Rightarrow> True | Inr b \<Rightarrow> block_size b = n)"

definition allocated_size ::
  "('h, 'hs) Heap \<Rightarrow> 'hs \<Rightarrow> 'h \<Rightarrow> nat \<Rightarrow> nat \<Rightarrow> nat option" where
  "allocated_size H hs h n al =
     (case fst (allocate_fn H hs h n al) of Inl e \<Rightarrow> None | Inr b \<Rightarrow> Some (block_size b))"

subsection \<open>Ownership and the record of calls\<close>

text \<open>
  The ownership invariant: the current block, if not empty, is among the blocks that were
  allocated through this object's handle and are not yet deallocated.
\<close>

definition owned :: "'h block_storage_heap \<Rightarrow> ('a, 'h, 'hs) world \<Rightarrow> bool" where
  "owned s w = (empty (block s) \<or> (argument s, block s) \<in> set (outstanding (calls w)))"

text \<open>A call is in order when it does not ask for zero bytes or free an empty block.\<close>

fun call_ok :: "'h heap_call \<Rightarrow> bool" where
  "call_ok (Allocate h n al r) = (n \<noteq> 0)"
| "call_ok (Deallocate h b) = (\<not> empty b)"

text \<open>
  The calls recorded in \<open>w'\<close> are those recorded in \<open>w\<close> followed by calls that are all
  in order.
\<close>

definition calls_extended :: "('a, 'h, 'hs) world \<Rightarrow> ('a, 'h, 'hs) world \<Rightarrow> bool" where
  "calls_extended w w' =
     (take (length (calls w)) (calls w') = calls w
      \<and> list_all call_ok (drop (length (calls w)) (calls w')))"

subsection \<open>Executions\<close>

text \<open>
  A program using the class: it constructs storage objects (numbered in the order of
  construction), calls their member functions with views of its choice, catches whatever
  they throw and carries on, and destroys objects. An operation on an object that was
  never constructed or is already destroyed is not a program; the model skips it, as it
  does a swap of an object with itself.
\<close>

datatype 'h operation =
  Construct 'h
  | Reserve nat nat block_view
  | ShrinkToFit nat block_view
  | Swap nat block_view nat block_view
  | Destroy nat

fun step ::
  "'a elem_type \<Rightarrow> ('h, 'hs) Heap \<Rightarrow> GrowthPolicy \<Rightarrow> 'h operation
    \<Rightarrow> 'h block_storage_heap option list \<times> ('a, 'h, 'hs) world
    \<Rightarrow> 'h block_storage_heap option list \<times> ('a, 'h, 'hs) world" where
  "step T H GP (Construct h) (objs, w) =
     (case construct h w of (s, w') \<Rightarrow> (objs @ [Some s], w'))"
| "step T H GP (Reserve i n v) (objs, w) =
     (if i < length objs then
        (case objs ! i of
           None \<Rightarrow> (objs, w)
         | Some s \<Rightarrow> (case reserve T H GP n v s w of (r, s', w') \<Rightarrow> (objs[i := Some s'], w')))
      else (objs, w))"
| "step T H GP (ShrinkToFit i v) (objs, w) =
     (if i < length objs then
        (case objs ! i of
           None \<Rightarrow> (objs, w)
         | Some s \<Rightarrow> (case shrink_to_fit T H GP v s w of (r, s', w') \<Rightarrow> (objs[i := Some s'], w')))
      else (objs, w))"
| "step T H GP (Swap i iv j jv) (objs, w) =
     (if i < length objs \<and> j < length objs \<and> i \<noteq> j then
        (case (objs ! i, objs ! j) of
           (Some a, Some b) \<Rightarrow>
             (case swap a iv b jv w of
                (r, (a', iv', b', jv'), w') \<Rightarrow> (objs[i := Some a', j := Some b'], w'))
         | _ \<Rightarrow> (objs, w))
      else (objs, w))"
| "step T H GP (Destroy i) (objs, w) =
     (if i < length objs then
        (case objs ! i of
           None \<Rightarrow> (objs, w)
         | Some s \<Rightarrow> (case destroy H s w of (r, w') \<Rightarrow> (objs[i := None], w')))
      else (objs, w))"

definition run ::
  "'a elem_type \<Rightarrow> ('h, 'hs) Heap \<Rightarrow> GrowthPolicy \<Rightarrow> 'h operation list
    \<Rightarrow> 'h block_storage_heap option list \<times> ('a, 'h, 'hs) world
    \<Rightarrow> 'h block_storage_heap option list \<times> ('a, 'h, 'hs) world" where
  "run T H GP ops st = foldl (\<lambda>st operation. step T H GP operation st) st ops"

subsection \<open>Test collaborators\<close>

text \<open>
  An arena allocator whose handle is the end address of the arena and whose state is the
  next free address; \<open>arena_heap\<close> returns blocks of exactly the requested size,
  \<open>rounding_heap\<close> rounds the size up to a multiple of 16.
\<close>

definition arena_heap :: "(nat, nat) Heap" where
  "arena_heap =
     \<lparr>allocate_fn = (\<lambda>next limit n al.
        if next + n \<le> limit then (Inr \<lparr>address = next, block_size = n\<rparr>, next + n)
        else (Inl AllocationFailure, next)),
      deallocate_fn = (\<lambda>next limit b. next),
      max_size_fn = (\<lambda>limit. limit)\<rparr>"

definition rounding_heap :: "(nat, nat) Heap" where
  "rounding_heap =
     \<lparr>allocate_fn = (\<lambda>next limit n al.
        if next + (n + 15) div 16 * 16 \<le> limit
        then (Inr \<lparr>address = next, block_size = (n + 15) div 16 * 16\<rparr>, next + (n + 15) div 16 * 16)
        else (Inl AllocationFailure, next)),
      deallocate_fn = (\<lambda>next limit b. next),
      max_size_fn = (\<lambda>limit. limit)\<rparr>"

text \<open>
  A doubling growth policy with a tight shrink, and a policy that shrinks by halving
  (never below the live bytes).
\<close>

definition doubling_growth :: GrowthPolicy where
  "doubling_growth =
     \<lparr>growth_size = (\<lambda>old min_add mx.
        if mx < old + min_add then Inl CapacityExceeded
        else Inr (min mx (max (2 * old) (old + min_add)))),
      shrink_size = (\<lambda>old live. live)\<rparr>"

definition halving_shrink :: GrowthPolicy where
  "halving_shrink =
     \<lparr>growth_size = growth_size doubling_growth,
      shrink_size = (\<lambda>old live. max live (old div 2))\<rparr>"

text \<open>An 8-byte element type whose move constructor throws on the value 13.\<close>

definition elem8 :: "nat elem_type" where
  "elem8 =
     \<lparr>sizeof = 8, alignof = 8,
      move_raises = (\<lambda>x. if x = 13 then Some ElementTransferFailure else None)\<rparr>"

text \<open>
  A fresh world, and a world in which a storage object holds the 32-byte block at
  address 16 with three elements constructed in it.
\<close>

definition world0 :: "(nat, nat, nat) world" where
  "world0 = \<lparr>heap = 16, calls = [], objects = (\<lambda>a. None)\<rparr>"

definition storage3 :: "nat block_storage_heap" where
  "storage3 = \<lparr>stored_argument = 1048576, block_field = \<lparr>address = 16, block_size = 32\<rparr>\<rparr>"

definition world3 :: "nat \<Rightarrow> nat \<Rightarrow> nat \<Rightarrow> (nat, nat, nat) world" where
  "world3 x y z =
     \<lparr>heap = 48,
      calls = [Allocate 1048576 32 8 (Inr \<lparr>address = 16, block_size = 32\<rparr>)],
      objects = (\<lambda>a. if a = 16 then Some x else if a = 24 then Some y
                     else if a = 32 then Some z else None)\<rparr>"

definition view3 :: block_view where
  "view3 = \<lparr>base = 16, count = 3\<rparr>"

text \<open>The values 10, 20, 30 living in three consecutive 8-byte slots from address \<open>p\<close>.\<close>

definition three_at :: "nat \<Rightarrow> nat \<Rightarrow> nat option" where
  "three_at p = (\<lambda>a. if a = p then Some 10 else if a = p + 8 then Some 20
                     else if a = p + 16 then Some 30 else None)"

text \<open>
  The three-element storage grown by \<open>reserve(64, ...)\<close>, then shrunk once and twice,
  each time with the view re-derived from the new block: with both test allocators the
  block returned by \<open>reserve\<close> starts at address 48, and the one returned by the first
  \<open>shrink_to_fit\<close> at address 144.
\<close>

definition grown ::
  "(nat, nat) Heap \<Rightarrow> GrowthPolicy
    \<Rightarrow> (error + unit) \<times> nat block_storage_heap \<times> (nat, nat, nat) world" where
  "grown H GP = reserve elem8 H GP 64 view3 storage3 (world3 10 20 30)"

definition shrunk_once ::
  "(nat, nat) Heap \<Rightarrow> GrowthPolicy
    \<Rightarrow> (error + unit) \<times> nat block_storage_heap \<times> (nat, nat, nat) world" where
  "shrunk_once H GP =
     shrink_to_fit elem8 H GP \<lparr>base = 48, count = 3\<rparr>
       (fst (snd (grown H GP))) (snd (snd (grown H GP)))"

definition shrunk_twice ::
  "(nat, nat) Heap \<Rightarrow> GrowthPolicy
    \<Rightarrow> (error + unit) \<times> nat block_storage_heap \<times> (nat, nat, nat) world" where
  "shrunk_twice H GP =
     shrink_to_fit elem8 H GP \<lparr>base = 144, count = 3\<rparr>
       (fst (snd (shrunk_once H GP))) (snd (snd (shrunk_once H GP)))"

section \<open>Properties\<close>

subsection \<open>Auxiliary facts\<close>

lemmas fixture_defs =
  arena_heap_def rounding_heap_def doubling_growth_def halving_shrink_def elem8_def
  world0_def storage3_def world3_def view3_def

lemmas storage_defs =
  reserve_def shrink_to_fit_def change_block_def allocate_block_def deallocate_block_def
  Heap_allocate_def Heap_deallocate_def uninitialized_destructive_move_def
  construct_def destroy_def swap_def block_def argument_def max_size_def
  empty_def empty_block_def view_size_def size_type_wrap_def

lemma move_range_numeral:
  "move_range T src dst i (numeral n) mem =
     (case mem (src + i * sizeof T) of
        None \<Rightarrow> move_range T src dst (Suc i) (pred_numeral n) mem
      | Some x \<Rightarrow>
          (case move_raises T x of
             Some e \<Rightarrow> (Some (i, e), mem)
           | None \<Rightarrow>
               move_range T src dst (Suc i) (pred_numeral n)
                 (mem(dst + i * sizeof T := Some x, src + i * sizeof T := None))))"
  by (simp only: numeral_eq_Suc move_range.simps)

lemma destroy_range_numeral:
  "destroy_range T dst (numeral n) mem =
     (destroy_range T dst (pred_numeral n) mem)(dst + pred_numeral n * sizeof T := None)"
  by (simp only: numeral_eq_Suc destroy_range.simps)

lemmas transfer_eval = move_range_numeral destroy_range_numeral

lemma view_live_iff:
  "view_live T v mem \<longleftrightarrow> (\<forall>i < count v. mem (base v + i * sizeof T) \<noteq> None)"
  by (auto simp: view_live_def list_all_iff)

lemma deallocate_block_objects [simp]: "objects (deallocate_block H s b w) = objects w"
  by (simp add: deallocate_block_def Heap_deallocate_def)

lemma deallocate_block_calls:
  "calls (deallocate_block H s b w) =
     calls w @ (if empty b then [] else [Deallocate (stored_argument s) b])"
  by (simp add: deallocate_block_def Heap_deallocate_def)

lemma deallocate_block_heap:
  "heap (deallocate_block H s b w) =
     (if empty b then heap w else deallocate_fn H (heap w) (stored_argument s) b)"
  by (simp add: deallocate_block_def Heap_deallocate_def)

lemma allocate_block_world:
  assumes "allocate_block H s n al w = (r, w1)"
  shows "objects w1 = objects w"
    and "calls w1 = calls w @ (if n = 0 then [] else [Allocate (stored_argument s) n al r])"
    and "n = 0 \<Longrightarrow> r = Inr empty_block"
  using assms
  by (auto simp: allocate_block_def Heap_allocate_def split: if_splits prod.splits)

subsection \<open>The test scenarios, evaluated\<close>

lemmas scenario_eval = fixture_defs storage_defs transfer_eval three_at_def

lemma grown_eq:
  assumes "growth_size GP = growth_size doubling_growth"
    and "H = arena_heap \<or> H = rounding_heap"
  shows "grown H GP
     = (Inr (),
        \<lparr>stored_argument = 1048576, block_field = \<lparr>address = 48, block_size = 96\<rparr>\<rparr>,
        \<lparr>heap = 144,
         calls = [Allocate 1048576 32 8 (Inr \<lparr>address = 16, block_size = 32\<rparr>),
                  Allocate 1048576 96 8 (Inr \<lparr>address = 48, block_size = 96\<rparr>),
                  Deallocate 1048576 \<lparr>address = 16, block_size = 32\<rparr>],
         objects = three_at 48\<rparr>)"
  using assms by (auto simp: grown_def scenario_eval fun_eq_iff)

lemma halving_growth: "growth_size halving_shrink = growth_size doubling_growth"
  by (simp add: halving_shrink_def)

lemmas grown_arena_doubling = grown_eq [of doubling_growth arena_heap, OF refl disjI1 [OF refl]]

lemmas grown_arena_halving = grown_eq [of halving_shrink arena_heap, OF halving_growth disjI1 [OF refl]]

lemmas grown_rounding_doubling =
  grown_eq [of doubling_growth rounding_heap, OF refl disjI2 [OF refl]]

lemmas grown_evals = grown_arena_doubling grown_arena_halving grown_rounding_doubling

lemma shrunk_once_arena_doubling:
  "shrunk_once arena_heap doubling_growth
     = (Inr (),
        \<lparr>stored_argument = 1048576, block_field = \<lparr>address = 144, block_size = 24\<rparr>\<rparr>,
        \<lparr>heap = 168,
         calls = [Allocate 1048576 32 8 (Inr \<lparr>address = 16, block_size = 32\<rparr>),
                  Allocate 1048576 96 8 (Inr \<lparr>address = 48, block_size = 96\<rparr>),
                  Deallocate 1048576 \<lparr>address = 16, block_size = 32\<rparr>,
                  Allocate 1048576 24 8 (Inr \<lparr>address = 144, block_size = 24\<rparr>),
                  Deallocate 1048576 \<lparr>address = 48, block_size = 96\<rparr>],
         objects = three_at 144\<rparr>)"
  by (simp only: shrunk_once_def grown_evals fst_conv snd_conv)
    (auto simp: scenario_eval fun_eq_iff)

lemma shrunk_once_arena_halving:
  "shrunk_once arena_heap halving_shrink
     = (Inr (),
        \<lparr>stored_argument = 1048576, block_field = \<lparr>address = 144, block_size = 48\<rparr>\<rparr>,
        \<lparr>heap = 192,
         calls = [Allocate 1048576 32 8 (Inr \<lparr>address = 16, block_size = 32\<rparr>),
                  Allocate 1048576 96 8 (Inr \<lparr>address = 48, block_size = 96\<rparr>),
                  Deallocate 1048576 \<lparr>address = 16, block_size = 32\<rparr>,
                  Allocate 1048576 48 8 (Inr \<lparr>address = 144, block_size = 48\<rparr>),
                  Deallocate 1048576 \<lparr>address = 48, block_size = 96\<rparr>],
         objects = three_at 144\<rparr>)"
  by (simp only: shrunk_once_def grown_evals fst_conv snd_conv)
    (auto simp: scenario_eval fun_eq_iff)

lemma shrunk_twice_arena_halving:
  "fst (shrunk_twice arena_heap halving_shrink) = Inr ()
   \<and> block_field (fst (snd (shrunk_twice arena_heap halving_shrink)))
       = \<lparr>address = 192, block_size = 24\<rparr>"
  by (simp only: shrunk_twice_def shrunk_once_arena_halving fst_conv snd_conv)
    (simp add: scenario_eval)

lemma shrunk_once_rounding:
  "fst (shrunk_once rounding_heap doubling_growth) = Inr ()
   \<and> block_field (fst (snd (shrunk_once rounding_heap doubling_growth)))
       = \<lparr>address = 144, block_size = 32\<rparr>"
  by (simp only: shrunk_once_def grown_evals fst_conv snd_conv)
    (simp add: scenario_eval)

lemma shrunk_once_rounding_eq:
  "shrunk_once rounding_heap doubling_growth
     = (Inr (),
        \<lparr>stored_argument = 1048576, block_field = \<lparr>address = 144, block_size = 32\<rparr>\<rparr>,
        \<lparr>heap = 176,
         calls = [Allocate 1048576 32 8 (Inr \<lparr>address = 16, block_size = 32\<rparr>),
                  Allocate 1048576 96 8 (Inr \<lparr>address = 48, block_size = 96\<rparr>),
                  Deallocate 1048576 \<lparr>address = 16, block_size = 32\<rparr>,
                  Allocate 1048576 24 8 (Inr \<lparr>address = 144, block_size = 32\<rparr>),
                  Deallocate 1048576 \<lparr>address = 48, block_size = 96\<rparr>],
         objects = three_at 144\<rparr>)"
  by (simp only: shrunk_once_def grown_evals fst_conv snd_conv)
    (auto simp: scenario_eval fun_eq_iff)

lemma shrunk_twice_rounding:
  "fst (shrunk_twice rounding_heap doubling_growth) = Inr ()
   \<and> block_field (fst (snd (shrunk_twice rounding_heap doubling_growth)))
       = \<lparr>address = 176, block_size = 32\<rparr>"
  by (simp only: shrunk_twice_def shrunk_once_rounding_eq fst_conv snd_conv)
    (simp add: scenario_eval)

lemma view3_live: "view_live elem8 view3 (objects (world3 10 20 30))"
  by (auto simp: view_live_iff view3_def world3_def elem8_def numeral_3_eq_3 less_Suc_eq)

subsection \<open>Failure of the growth policy, the allocator and the relocation\<close>

text \<open>
  Claim C4. When \<open>GrowthPolicy::growth_size\<close> throws in a call of \<open>reserve\<close>, the call
  throws the same error and returns the storage object and the whole world as they were:
  in particular the record of allocator calls is unchanged, so \<open>Heap::allocate\<close> was not
  invoked.
\<close>

theorem reserve_capacity_exceeded:
  assumes "growth_size GP (block_size (block s)) n (max_size H (argument s)) = Inl e"
  shows "reserve T H GP n v s w = (Inl e, s, w)"
  using assms by (simp add: reserve_def block_def)

theorem reserve_capacity_exceeded_witness:
  "growth_size doubling_growth (block_size (block (fst (construct 1048576 world0)))) 2000000
     (max_size arena_heap (argument (fst (construct 1048576 world0)))) = Inl CapacityExceeded
   \<and> reserve elem8 arena_heap doubling_growth 2000000 \<lparr>base = 0, count = 0\<rparr>
       (fst (construct 1048576 world0)) world0
     = (Inl CapacityExceeded, fst (construct 1048576 world0), world0)
   \<and> calls world0 = []"
proof -
  have h: "growth_size doubling_growth (block_size (block (fst (construct 1048576 world0)))) 2000000
     (max_size arena_heap (argument (fst (construct 1048576 world0)))) = Inl CapacityExceeded"
    by (simp add: fixture_defs storage_defs)
  show ?thesis
    using h reserve_capacity_exceeded [OF h, of elem8 "\<lparr>base = 0, count = 0\<rparr>" world0]
    by (simp add: world0_def)
qed

text \<open>
  Claim C3. When the policy returns a non-zero target and \<open>Heap::allocate\<close> throws for
  it, \<open>reserve\<close> throws the same error; the storage object (and so \<open>block()\<close>) is as it
  was, every object in memory is as it was, and the only change to the world is the
  allocator's own state and the record of its failed call. This holds whether or not the
  element type's move constructor can throw: no element has been touched yet.
\<close>

theorem reserve_allocation_failure:
  assumes "growth_size GP (block_size (block s)) n (max_size H (argument s)) = Inr new_size"
    and "new_size \<noteq> 0"
    and "allocate_fn H (heap w) (argument s) new_size (alignof T) = (Inl e, hs)"
  shows "reserve T H GP n v s w =
           (Inl e, s, w\<lparr>heap := hs,
              calls := calls w @ [Allocate (argument s) new_size (alignof T) (Inl e)]\<rparr>)
         \<and> block (fst (snd (reserve T H GP n v s w))) = block s
         \<and> objects (snd (snd (reserve T H GP n v s w))) = objects w"
  using assms
  by (simp add: reserve_def block_def argument_def allocate_block_def Heap_allocate_def)

theorem reserve_allocation_failure_witness:
  "fst (reserve elem8 arena_heap doubling_growth 64 view3
          (storage3\<lparr>stored_argument := 100\<rparr>) (world3 10 20 30)) = Inl AllocationFailure
   \<and> block (fst (snd (reserve elem8 arena_heap doubling_growth 64 view3
          (storage3\<lparr>stored_argument := 100\<rparr>) (world3 10 20 30))))
       = \<lparr>address = 16, block_size = 32\<rparr>
   \<and> objects (snd (snd (reserve elem8 arena_heap doubling_growth 64 view3
          (storage3\<lparr>stored_argument := 100\<rparr>) (world3 10 20 30)))) 24 = Some 20"
proof -
  let ?s = "storage3\<lparr>stored_argument := 100\<rparr>"
  have g: "growth_size doubling_growth (block_size (block ?s)) 64 (max_size arena_heap (argument ?s))
             = Inr 96"
    by (simp add: fixture_defs storage_defs)
  have n: "(96::nat) \<noteq> 0" by simp
  have a: "allocate_fn arena_heap (heap (world3 10 20 30)) (argument ?s) 96 (alignof elem8)
             = (Inl AllocationFailure, 48)"
    by (simp add: fixture_defs storage_defs)
  show ?thesis
    using reserve_allocation_failure [OF g n a, of view3]
    by (simp add: fixture_defs storage_defs)
qed

text \<open>
  Claim C1. Let \<open>allocate_block\<close> have returned \<open>new_block\<close> for the target size, and let the
  relocation of the constructed elements into it throw \<open>e\<close>. Then \<open>reserve\<close> (when the
  target came from \<open>growth_size\<close>) and \<open>shrink_to_fit\<close> (when it came from \<open>shrink_size\<close>)
  throw the same \<open>e\<close> and return the storage object unchanged, so \<open>block()\<close> is still the
  old block; the allocator calls of the whole operation are the allocation of
  \<open>new_block\<close> (if the target was not zero) followed by its deallocation through the same
  handle (if it is not empty), and nothing else: the old block is not deallocated.
\<close>

theorem relocation_failure_strong_guarantee:
  assumes "allocate_block H s new_size (alignof T) w = (Inr new_block, w1)"
    and "uninitialized_destructive_move T constructed new_block (objects w1) = (Inl e, mem)"
  shows "(growth_size GP (block_size (block s)) min_additional_bytes (max_size H (argument s))
            = Inr new_size \<longrightarrow>
          reserve T H GP min_additional_bytes constructed s w
            = (Inl e, s, deallocate_block H s new_block (w1\<lparr>objects := mem\<rparr>)))
       \<and> (shrink_size GP (block_size (block s)) (size_type_wrap (view_size constructed * sizeof T))
            = new_size \<longrightarrow>
          shrink_to_fit T H GP constructed s w
            = (Inl e, s, deallocate_block H s new_block (w1\<lparr>objects := mem\<rparr>)))
       \<and> calls (deallocate_block H s new_block (w1\<lparr>objects := mem\<rparr>))
            = calls w @ (if new_size = 0 then []
                         else [Allocate (argument s) new_size (alignof T) (Inr new_block)])
                      @ (if empty new_block then [] else [Deallocate (argument s) new_block])
       \<and> (\<not> empty new_block \<longrightarrow>
            heap (deallocate_block H s new_block (w1\<lparr>objects := mem\<rparr>))
              = deallocate_fn H (heap w1) (argument s) new_block)"
  using assms allocate_block_world(2)[OF assms(1)]
  by (auto simp: reserve_def shrink_to_fit_def change_block_def block_def argument_def
      deallocate_block_calls deallocate_block_heap)

theorem relocation_failure_strong_guarantee_witness:
  "fst (reserve elem8 arena_heap doubling_growth 64 view3 storage3 (world3 10 13 30))
     = Inl ElementTransferFailure
   \<and> fst (snd (reserve elem8 arena_heap doubling_growth 64 view3 storage3 (world3 10 13 30)))
     = storage3
   \<and> calls (snd (snd (reserve elem8 arena_heap doubling_growth 64 view3 storage3 (world3 10 13 30))))
     = [Allocate 1048576 32 8 (Inr \<lparr>address = 16, block_size = 32\<rparr>),
        Allocate 1048576 96 8 (Inr \<lparr>address = 48, block_size = 96\<rparr>),
        Deallocate 1048576 \<lparr>address = 48, block_size = 96\<rparr>]"
proof -
  let ?w = "world3 10 13 30"
  let ?nb = "\<lparr>address = 48, block_size = 96\<rparr>"
  let ?w1 = "snd (allocate_block arena_heap storage3 96 8 ?w)"
  let ?mem = "snd (uninitialized_destructive_move elem8 view3 ?nb (objects ?w1))"
  have a: "allocate_block arena_heap storage3 96 (alignof elem8) ?w = (Inr ?nb, ?w1)"
    by (simp add: fixture_defs storage_defs)
  have "fst (uninitialized_destructive_move elem8 view3 ?nb (objects ?w1))
          = Inl ElementTransferFailure"
    by (simp add: fixture_defs storage_defs transfer_eval)
  then have m: "uninitialized_destructive_move elem8 view3 ?nb (objects ?w1)
             = (Inl ElementTransferFailure, ?mem)"
    by (simp add: prod_eq_iff)
  have g: "growth_size doubling_growth (block_size (block storage3)) 64
             (max_size arena_heap (argument storage3)) = Inr 96"
    by (simp add: fixture_defs storage_defs)
  note R = relocation_failure_strong_guarantee [OF a m, of doubling_growth 64]
  let ?w' = "deallocate_block arena_heap storage3 ?nb (?w1\<lparr>objects := ?mem\<rparr>)"
  have r: "reserve elem8 arena_heap doubling_growth 64 view3 storage3 ?w
             = (Inl ElementTransferFailure, storage3, ?w')"
    using R g by blast
  have "calls ?w' = calls ?w @ (if (96::nat) = 0 then []
                         else [Allocate (argument storage3) 96 (alignof elem8) (Inr ?nb)])
                      @ (if empty ?nb then [] else [Deallocate (argument storage3) ?nb])"
    using R by blast
  then have c: "calls ?w' = [Allocate 1048576 32 8 (Inr \<lparr>address = 16, block_size = 32\<rparr>),
        Allocate 1048576 96 8 (Inr ?nb), Deallocate 1048576 ?nb]"
    by (simp add: storage3_def world3_def argument_def empty_def elem8_def)
  show ?thesis
    by (simp only: r c fst_conv snd_conv simp_thms)
qed

subsection \<open>Swap and destruction\<close>

text \<open>
  Claim C5. \<open>swap\<close> returns normally; afterwards each object has the other's handle and
  block, each view variable holds the other view, so that a view that lay within the
  block of one object lies within the block of the object it is now paired with; the
  allocator's state, the record of allocator calls and every object in memory are
  unchanged.
\<close>

theorem swap_exchanges:
  assumes "swap a av b bv w = (r, (a', av', b', bv'), w')"
  shows "r = Inr ()
       \<and> argument a' = argument b \<and> argument b' = argument a
       \<and> block a' = block b \<and> block b' = block a
       \<and> av' = bv \<and> bv' = av
       \<and> (view_within T bv (block b) \<longrightarrow> view_within T av' (block a'))
       \<and> (view_within T av (block a) \<longrightarrow> view_within T bv' (block b'))
       \<and> heap w' = heap w \<and> calls w' = calls w \<and> objects w' = objects w"
  using assms by (auto simp: swap_def Let_def block_def argument_def)

theorem swap_exchanges_witness:
  "fst (swap storage3 view3 (fst (construct 7 (world3 10 20 30))) \<lparr>base = 0, count = 0\<rparr>
          (world3 10 20 30)) = Inr ()
   \<and> fst (snd (swap storage3 view3 (fst (construct 7 (world3 10 20 30))) \<lparr>base = 0, count = 0\<rparr>
          (world3 10 20 30)))
       = (\<lparr>stored_argument = 7, block_field = empty_block\<rparr>, \<lparr>base = 0, count = 0\<rparr>,
          storage3, view3)
   \<and> view_within elem8 view3 (block storage3)
   \<and> snd (snd (swap storage3 view3 (fst (construct 7 (world3 10 20 30))) \<lparr>base = 0, count = 0\<rparr>
          (world3 10 20 30))) = world3 10 20 30"
proof -
  let ?b = "fst (construct 7 (world3 10 20 30))"
  let ?bv = "\<lparr>base = 0, count = 0\<rparr>"
  have h: "swap storage3 view3 ?b ?bv (world3 10 20 30)
             = (Inr (), (\<lparr>stored_argument = 7, block_field = empty_block\<rparr>, ?bv, storage3, view3),
                world3 10 20 30)"
    by (simp add: swap_def Let_def construct_def storage3_def)
  have v: "view_within elem8 view3 (block storage3)"
    by (simp add: view_within_def view3_def storage3_def block_def elem8_def)
  show ?thesis
    using swap_exchanges [OF h, of elem8] v by (simp add: h)
qed

text \<open>
  Claim C9. The destructor returns normally. If the block is empty the world is left as
  it was; otherwise \<open>Heap::deallocate\<close> is called exactly once, on the current block with
  the object's handle.
\<close>

theorem destruction_deallocates:
  "fst (destroy H s w) = Inr ()
   \<and> snd (destroy H s w) =
       (if empty (block s) then w
        else w\<lparr>heap := deallocate_fn H (heap w) (argument s) (block s),
               calls := calls w @ [Deallocate (argument s) (block s)]\<rparr>)"
  by (simp add: destroy_def deallocate_block_def Heap_deallocate_def block_def argument_def)

theorem destruction_deallocates_witness:
  "fst (destroy arena_heap storage3 (world3 10 20 30)) = Inr ()
   \<and> calls (snd (destroy arena_heap storage3 (world3 10 20 30)))
       = [Allocate 1048576 32 8 (Inr \<lparr>address = 16, block_size = 32\<rparr>),
          Deallocate 1048576 \<lparr>address = 16, block_size = 32\<rparr>]
   \<and> snd (destroy arena_heap (fst (construct 1048576 world0)) world0) = world0"
  using destruction_deallocates [of arena_heap storage3 "world3 10 20 30"]
    destruction_deallocates [of arena_heap "fst (construct 1048576 world0)" world0]
  by (simp add: fixture_defs block_def argument_def empty_def construct_def empty_block_def)

subsection \<open>The ownership invariant\<close>

lemma outstanding_snoc: "outstanding (cs @ [c]) = track (outstanding cs) c"
  by (simp add: outstanding_def)

lemma outstanding_allocate_block:
  assumes "allocate_block H s n al w = (r, w1)"
  shows "outstanding (calls w1) =
           (case r of Inl e \<Rightarrow> outstanding (calls w)
            | Inr b \<Rightarrow> if n = 0 then outstanding (calls w)
                       else (stored_argument s, b) # outstanding (calls w))"
  using allocate_block_world(2)[OF assms]
  by (cases r) (simp_all add: outstanding_snoc)

lemma outstanding_deallocate_block:
  "outstanding (calls (deallocate_block H s b w)) =
     (if empty b then outstanding (calls w)
      else remove1 (stored_argument s, b) (outstanding (calls w)))"
  by (simp add: deallocate_block_calls outstanding_snoc)

lemma change_block_owned:
  assumes own: "owned s w"
    and alloc: "allocate_block H s n al w = (Inr nb, w1)"
    and change: "change_block T H v nb s w1 = (r, s', w')"
  shows "owned s' w'"
proof -
  let ?h = "stored_argument s"
  let ?L = "outstanding (calls w)"
  have L1: "outstanding (calls w1) = (if n = 0 then ?L else (?h, nb) # ?L)"
    using outstanding_allocate_block[OF alloc] by simp
  have zero: "n = 0 \<Longrightarrow> empty nb"
    using allocate_block_world(3)[OF alloc] by (simp add: empty_def empty_block_def)
  obtain res mem where tr: "uninitialized_destructive_move T v nb (objects w1) = (res, mem)"
    by (cases "uninitialized_destructive_move T v nb (objects w1)")
  show ?thesis
  proof (cases res)
    case (Inl e)
    then have s': "s' = s" and w': "w' = deallocate_block H s nb (w1\<lparr>objects := mem\<rparr>)"
      using change tr by (auto simp: change_block_def)
    have "outstanding (calls w') = (if empty nb then outstanding (calls w1)
             else remove1 (?h, nb) (outstanding (calls w1)))"
      by (simp add: w' outstanding_deallocate_block)
    then show ?thesis
      using own L1 zero by (auto simp: owned_def s' block_def argument_def)
  next
    case (Inr u)
    then have s': "s' = s\<lparr>block_field := nb\<rparr>"
      and w': "w' = deallocate_block H s (block_field s) (w1\<lparr>objects := mem\<rparr>)"
      using change tr by (auto simp: change_block_def)
    have "outstanding (calls w') = (if empty (block_field s) then outstanding (calls w1)
             else remove1 (?h, block_field s) (outstanding (calls w1)))"
      by (simp add: w' outstanding_deallocate_block)
    then show ?thesis
      using own L1 zero by (auto simp: owned_def s' block_def argument_def)
  qed
qed

lemma allocate_block_failed_owned:
  assumes "owned s w" and "allocate_block H s n al w = (Inl e, w1)"
  shows "owned s w1"
  using assms(1) outstanding_allocate_block[OF assms(2)] by (simp add: owned_def)

lemma reserve_owned:
  assumes "owned s w" and "reserve T H GP n v s w = (r, s', w')"
  shows "owned s' w'"
proof (cases "growth_size GP (block_size (block_field s)) n (max_size H (argument s))")
  case (Inl e)
  then show ?thesis using assms by (simp add: reserve_def)
next
  case (Inr new_size)
  obtain ra w1 where a: "allocate_block H s new_size (alignof T) w = (ra, w1)"
    by (cases "allocate_block H s new_size (alignof T) w")
  show ?thesis
  proof (cases ra)
    case (Inl e)
    then show ?thesis
      using assms Inr a allocate_block_failed_owned[of s w H new_size "alignof T" e w1]
      by (simp add: reserve_def)
  next
    case nb: (Inr nb)
    then have "change_block T H v nb s w1 = (r, s', w')"
      using assms(2) Inr a by (simp add: reserve_def)
    then show ?thesis
      using change_block_owned[OF assms(1)] a nb by blast
  qed
qed

lemma shrink_to_fit_owned:
  assumes "owned s w" and "shrink_to_fit T H GP v s w = (r, s', w')"
  shows "owned s' w'"
proof -
  let ?n = "shrink_size GP (block_size (block_field s)) (size_type_wrap (view_size v * sizeof T))"
  obtain ra w1 where a: "allocate_block H s ?n (alignof T) w = (ra, w1)"
    by (cases "allocate_block H s ?n (alignof T) w")
  show ?thesis
  proof (cases ra)
    case (Inl e)
    then show ?thesis
      using assms a allocate_block_failed_owned[of s w H ?n "alignof T" e w1]
      by (simp add: shrink_to_fit_def Let_def)
  next
    case nb: (Inr nb)
    then have "change_block T H v nb s w1 = (r, s', w')"
      using assms(2) a by (simp add: shrink_to_fit_def Let_def)
    then show ?thesis
      using change_block_owned[OF assms(1)] a nb by blast
  qed
qed

text \<open>
  Claim C8. The constructor sets the block to the empty block and leaves the world as it
  was (it allocates nothing), which establishes the ownership invariant. \<open>reserve\<close> and
  \<open>shrink_to_fit\<close> preserve the invariant whether they return or throw, and \<open>swap\<close>
  preserves it for both objects.
\<close>

theorem ownership_invariant:
  "block (fst (construct h w)) = empty_block \<and> snd (construct h w) = w
   \<and> owned (fst (construct h w)) (snd (construct h w))
   \<and> (owned s w \<longrightarrow>
        owned (fst (snd (reserve T H GP n v s w))) (snd (snd (reserve T H GP n v s w))))
   \<and> (owned s w \<longrightarrow>
        owned (fst (snd (shrink_to_fit T H GP v s w))) (snd (snd (shrink_to_fit T H GP v s w))))
   \<and> (owned a w \<and> owned b w \<longrightarrow>
        owned (fst (fst (snd (swap a av b bv w)))) (snd (snd (swap a av b bv w)))
        \<and> owned (fst (snd (snd (fst (snd (swap a av b bv w)))))) (snd (snd (swap a av b bv w))))"
proof -
  have c: "block (fst (construct h w)) = empty_block \<and> snd (construct h w) = w
      \<and> owned (fst (construct h w)) (snd (construct h w))"
    by (simp add: construct_def owned_def block_def empty_def empty_block_def)
  have r: "owned s w \<longrightarrow>
        owned (fst (snd (reserve T H GP n v s w))) (snd (snd (reserve T H GP n v s w)))"
    using reserve_owned[of s w T H GP n v] by (metis prod.collapse)
  have sh: "owned s w \<longrightarrow>
        owned (fst (snd (shrink_to_fit T H GP v s w))) (snd (snd (shrink_to_fit T H GP v s w)))"
    using shrink_to_fit_owned[of s w T H GP v] by (metis prod.collapse)
  have sw: "owned a w \<and> owned b w \<longrightarrow>
        owned (fst (fst (snd (swap a av b bv w)))) (snd (snd (swap a av b bv w)))
        \<and> owned (fst (snd (snd (fst (snd (swap a av b bv w)))))) (snd (snd (swap a av b bv w)))"
    by (simp add: swap_def Let_def owned_def block_def argument_def)
  show ?thesis using c r sh sw by blast
qed

theorem ownership_invariant_witness:
  "owned storage3 (world3 10 20 30) \<and> \<not> empty (block storage3)
   \<and> owned (fst (snd (grown arena_heap doubling_growth)))
        (snd (snd (grown arena_heap doubling_growth)))
   \<and> \<not> empty (block (fst (snd (grown arena_heap doubling_growth))))
   \<and> owned (fst (construct 7 (world3 10 20 30))) (world3 10 20 30)
   \<and> owned (fst (fst (snd (swap storage3 view3 (fst (construct 7 (world3 10 20 30)))
              \<lparr>base = 0, count = 0\<rparr> (world3 10 20 30)))))
        (world3 10 20 30)"
proof -
  have h: "owned storage3 (world3 10 20 30)"
    by (simp add: owned_def outstanding_def storage3_def world3_def block_def argument_def)
  have c: "owned (fst (construct 7 (world3 10 20 30))) (world3 10 20 30)"
    by (simp add: owned_def construct_def block_def empty_def empty_block_def)
  note W = ownership_invariant [of 7 "world3 10 20 30" storage3 elem8
      arena_heap doubling_growth 64 view3 storage3 "fst (construct 7 (world3 10 20 30))"
      view3 "\<lparr>base = 0, count = 0\<rparr>"]
  have e: "\<not> empty (block storage3)
      \<and> \<not> empty (block (fst (snd (grown arena_heap doubling_growth))))"
    by (simp only: grown_arena_doubling fst_conv snd_conv)
      (simp add: storage3_def block_def empty_def)
  have sw: "snd (snd (swap storage3 view3 (fst (construct 7 (world3 10 20 30)))
              \<lparr>base = 0, count = 0\<rparr> (world3 10 20 30))) = world3 10 20 30"
    by (simp add: swap_def Let_def)
  show ?thesis using h c e W sw by (simp add: grown_def)
qed

subsection \<open>The calls made to the allocator\<close>

lemma calls_extended_iff:
  "calls_extended w w' \<longleftrightarrow> (\<exists>new. calls w' = calls w @ new \<and> list_all call_ok new)"
proof
  assume "calls_extended w w'"
  then have "calls w' = calls w @ drop (length (calls w)) (calls w')
      \<and> list_all call_ok (drop (length (calls w)) (calls w'))"
    unfolding calls_extended_def by (metis append_take_drop_id)
  then show "\<exists>new. calls w' = calls w @ new \<and> list_all call_ok new" by blast
next
  assume "\<exists>new. calls w' = calls w @ new \<and> list_all call_ok new"
  then show "calls_extended w w'" by (auto simp: calls_extended_def)
qed

lemma calls_extended_refl: "calls_extended w w"
  by (simp add: calls_extended_def)

lemma calls_extended_trans:
  assumes "calls_extended w w1" and "calls_extended w1 w2"
  shows "calls_extended w w2"
proof -
  obtain n1 where n1: "calls w1 = calls w @ n1" "list_all call_ok n1"
    using assms(1) calls_extended_iff by blast
  obtain n2 where n2: "calls w2 = calls w1 @ n2" "list_all call_ok n2"
    using assms(2) calls_extended_iff by blast
  have "calls w2 = calls w @ (n1 @ n2) \<and> list_all call_ok (n1 @ n2)"
    using n1 n2 by simp
  then show ?thesis using calls_extended_iff by blast
qed

lemma allocate_block_extends:
  assumes "allocate_block H s n al w = (r, w1)"
  shows "calls_extended w w1"
  using allocate_block_world(2)[OF assms] by (simp add: calls_extended_def)

lemma deallocate_block_extends: "calls_extended w (deallocate_block H s b w)"
  by (simp add: calls_extended_def deallocate_block_calls)

lemma objects_update_extends: "calls_extended w (w\<lparr>objects := mem\<rparr>)"
  by (simp add: calls_extended_def)

lemma change_block_extends:
  assumes "change_block T H v nb s w = (r, s', w')"
  shows "calls_extended w w'"
proof -
  obtain res mem where tr: "uninitialized_destructive_move T v nb (objects w) = (res, mem)"
    by (cases "uninitialized_destructive_move T v nb (objects w)")
  have "\<exists>b. w' = deallocate_block H s b (w\<lparr>objects := mem\<rparr>)"
    using assms tr by (cases res) (auto simp: change_block_def)
  then show ?thesis
    using calls_extended_trans[OF objects_update_extends deallocate_block_extends] by blast
qed

lemma reserve_extends:
  assumes "reserve T H GP n v s w = (r, s', w')"
  shows "calls_extended w w'"
proof (cases "growth_size GP (block_size (block_field s)) n (max_size H (argument s))")
  case (Inl e)
  then show ?thesis using assms by (auto simp: reserve_def calls_extended_refl)
next
  case (Inr new_size)
  obtain ra w1 where a: "allocate_block H s new_size (alignof T) w = (ra, w1)"
    by (cases "allocate_block H s new_size (alignof T) w")
  show ?thesis
  proof (cases ra)
    case (Inl e)
    then show ?thesis
      using assms Inr a allocate_block_extends[OF a] by (auto simp: reserve_def)
  next
    case nb: (Inr nb)
    then have "change_block T H v nb s w1 = (r, s', w')"
      using assms Inr a by (simp add: reserve_def)
    then show ?thesis
      using calls_extended_trans[OF allocate_block_extends[OF a] change_block_extends] by blast
  qed
qed

lemma shrink_to_fit_extends:
  assumes "shrink_to_fit T H GP v s w = (r, s', w')"
  shows "calls_extended w w'"
proof -
  let ?n = "shrink_size GP (block_size (block_field s)) (size_type_wrap (view_size v * sizeof T))"
  obtain ra w1 where a: "allocate_block H s ?n (alignof T) w = (ra, w1)"
    by (cases "allocate_block H s ?n (alignof T) w")
  show ?thesis
  proof (cases ra)
    case (Inl e)
    then show ?thesis
      using assms a allocate_block_extends[OF a] by (auto simp: shrink_to_fit_def Let_def)
  next
    case nb: (Inr nb)
    then have "change_block T H v nb s w1 = (r, s', w')"
      using assms a by (simp add: shrink_to_fit_def Let_def)
    then show ?thesis
      using calls_extended_trans[OF allocate_block_extends[OF a] change_block_extends] by blast
  qed
qed

lemma step_extends: "calls_extended w (snd (step T H GP operation (objs, w)))"
proof (cases operation)
  case (Construct h)
  then show ?thesis by (simp add: construct_def calls_extended_refl)
next
  case (Reserve i n v)
  then show ?thesis
    by (auto simp: calls_extended_refl split: option.splits prod.splits dest: reserve_extends)
next
  case (ShrinkToFit i v)
  then show ?thesis
    by (auto simp: calls_extended_refl split: option.splits prod.splits dest: shrink_to_fit_extends)
next
  case (Swap i iv j jv)
  then show ?thesis
    by (auto simp: calls_extended_refl swap_def Let_def split: option.splits prod.splits)
next
  case (Destroy i)
  then show ?thesis
    by (auto simp: calls_extended_refl destroy_def deallocate_block_extends
        split: option.splits prod.splits)
qed

lemma run_extends: "calls_extended w (snd (run T H GP ops (objs, w)))"
proof (induction ops arbitrary: objs w)
  case Nil
  then show ?case by (simp add: run_def calls_extended_refl)
next
  case (Cons operation ops)
  obtain objs1 w1 where st: "step T H GP operation (objs, w) = (objs1, w1)"
    by (cases "step T H GP operation (objs, w)")
  have "calls_extended w w1" using step_extends[of w T H GP operation objs] st by simp
  moreover have "calls_extended w1 (snd (run T H GP ops (objs1, w1)))" by (rule Cons.IH)
  moreover have "run T H GP (operation # ops) (objs, w) = run T H GP ops (objs1, w1)"
    by (simp add: run_def st)
  ultimately show ?case using calls_extended_trans by metis
qed

text \<open>
  Claim C10. A target size of zero yields the canonical empty block and leaves the world,
  and so the allocator, untouched; an empty block handed to \<open>deallocate_block\<close> likewise.
  In every execution, from any state, the calls made to the allocator extend the record
  of calls, and every call added is in order: no \<open>Heap::allocate\<close> for zero bytes and no
  \<open>Heap::deallocate\<close> of an empty block.
\<close>

theorem heap_calls_in_order:
  "allocate_block H s 0 alignment w = (Inr empty_block, w)
   \<and> deallocate_block H s empty_block w = w
   \<and> take (length (calls w)) (calls (snd (run T H GP ops (objs, w)))) = calls w
   \<and> list_all call_ok (drop (length (calls w)) (calls (snd (run T H GP ops (objs, w)))))"
  using run_extends[of w T H GP ops objs]
  by (simp add: calls_extended_def allocate_block_def deallocate_block_def empty_def empty_block_def)

theorem heap_calls_in_order_witness:
  "calls (snd (run elem8 arena_heap doubling_growth
       [Construct 1048576, Reserve 0 0 \<lparr>base = 0, count = 0\<rparr>,
        Reserve 0 64 \<lparr>base = 0, count = 0\<rparr>, ShrinkToFit 0 \<lparr>base = 16, count = 0\<rparr>,
        Destroy 0] ([], world0)))
     = [Allocate 1048576 64 8 (Inr \<lparr>address = 16, block_size = 64\<rparr>),
        Deallocate 1048576 \<lparr>address = 16, block_size = 64\<rparr>]
   \<and> list_all call_ok (calls (snd (run elem8 arena_heap doubling_growth
       [Construct 1048576, Reserve 0 0 \<lparr>base = 0, count = 0\<rparr>,
        Reserve 0 64 \<lparr>base = 0, count = 0\<rparr>, ShrinkToFit 0 \<lparr>base = 16, count = 0\<rparr>,
        Destroy 0] ([], world0))))"
proof -
  let ?ops = "[Construct 1048576, Reserve 0 0 \<lparr>base = 0, count = 0\<rparr>,
        Reserve 0 64 \<lparr>base = 0, count = 0\<rparr>, ShrinkToFit 0 \<lparr>base = 16, count = 0\<rparr>,
        Destroy 0]"
  have c: "calls (snd (run elem8 arena_heap doubling_growth ?ops ([], world0)))
     = [Allocate 1048576 64 8 (Inr \<lparr>address = 16, block_size = 64\<rparr>),
        Deallocate 1048576 \<lparr>address = 16, block_size = 64\<rparr>]"
    by (simp add: run_def fixture_defs storage_defs)
  have z: "calls world0 = []" by (simp add: world0_def)
  note W = heap_calls_in_order [of arena_heap "fst (construct 1048576 world0)" 8 world0
      elem8 doubling_growth ?ops "[]"]
  have "list_all call_ok (calls (snd (run elem8 arena_heap doubling_growth ?ops ([], world0))))"
    using W by (simp only: z list.size drop_0)
  then show ?thesis using c by simp
qed

subsection \<open>Successful relocation\<close>

lemma move_range_success:
  assumes "0 < sizeof T"
    and "\<forall>j < i + k. \<forall>j' < i + k. src + j * sizeof T \<noteq> dst + j' * sizeof T"
    and "move_range T src dst i k mem = (None, mem')"
    and "\<forall>j. i \<le> j \<and> j < i + k \<longrightarrow> mem (src + j * sizeof T) \<noteq> None"
  shows "(\<forall>j. i \<le> j \<and> j < i + k \<longrightarrow>
            mem' (dst + j * sizeof T) = mem (src + j * sizeof T) \<and> mem' (src + j * sizeof T) = None)
       \<and> (\<forall>a. (\<forall>j. i \<le> j \<and> j < i + k \<longrightarrow> a \<noteq> src + j * sizeof T \<and> a \<noteq> dst + j * sizeof T)
            \<longrightarrow> mem' a = mem a)"
  using assms
proof (induction k arbitrary: i mem)
  case 0
  then show ?case by auto
next
  case (Suc k)
  let ?s = "\<lambda>j. src + j * sizeof T" and ?d = "\<lambda>j. dst + j * sizeof T"
  have sz: "0 < sizeof T" by (rule Suc.prems(1))
  have ss: "\<And>j. j \<noteq> i \<Longrightarrow> ?s j \<noteq> ?s i" using sz by simp
  have dd: "\<And>j. j \<noteq> i \<Longrightarrow> ?d j \<noteq> ?d i" using sz by simp
  have disj: "\<And>j j'. j < Suc (i + k) \<Longrightarrow> j' < Suc (i + k) \<Longrightarrow> ?s j \<noteq> ?d j'"
    using Suc.prems(2) by simp
  obtain x where x: "mem (?s i) = Some x"
    using Suc.prems(4) by fastforce
  have nr: "move_raises T x = None"
    using Suc.prems(3) x by (auto split: option.splits)
  define mem1 where "mem1 = mem(?d i := Some x, ?s i := None)"
  have m1_other: "\<And>a. a \<noteq> ?s i \<Longrightarrow> a \<noteq> ?d i \<Longrightarrow> mem1 a = mem a"
    by (simp add: mem1_def)
  have m1_s: "mem1 (?s i) = None"
    by (simp add: mem1_def)
  have "?d i \<noteq> ?s i" using disj[of i i] by fastforce
  then have m1_d: "mem1 (?d i) = Some x"
    unfolding mem1_def by (simp only: fun_upd_apply if_False if_True refl)
  have run: "move_range T src dst (Suc i) k mem1 = (None, mem')"
    using Suc.prems(3) x nr by (simp add: mem1_def)
  have later: "\<And>j. Suc i \<le> j \<Longrightarrow> j < Suc i + k \<Longrightarrow> mem1 (?s j) = mem (?s j)"
  proof -
    fix j assume j: "Suc i \<le> j" "j < Suc i + k"
    have "?s j \<noteq> ?s i" using ss[of j] j by simp
    moreover have "?s j \<noteq> ?d i" using disj[of j i] j by simp
    ultimately show "mem1 (?s j) = mem (?s j)" by (rule m1_other)
  qed
  have live1: "\<forall>j. Suc i \<le> j \<and> j < Suc i + k \<longrightarrow> mem1 (?s j) \<noteq> None"
  proof (intro allI impI)
    fix j assume j: "Suc i \<le> j \<and> j < Suc i + k"
    then have "mem (?s j) \<noteq> None" using Suc.prems(4) by simp
    then show "mem1 (?s j) \<noteq> None" using later[of j] j by simp
  qed
  have disj1: "\<forall>j < Suc i + k. \<forall>j' < Suc i + k. ?s j \<noteq> ?d j'"
    using disj by simp
  note IH = Suc.IH[OF sz disj1 run live1]
  have rest: "\<And>j. Suc i \<le> j \<Longrightarrow> j < Suc i + k \<Longrightarrow>
      mem' (?d j) = mem (?s j) \<and> mem' (?s j) = None"
    using IH later by metis
  have frame1: "\<And>a. (\<forall>j. Suc i \<le> j \<and> j < Suc i + k \<longrightarrow> a \<noteq> ?s j \<and> a \<noteq> ?d j) \<Longrightarrow> mem' a = mem1 a"
    using IH by blast
  have di: "mem' (?d i) = Some x"
  proof -
    have "\<forall>j. Suc i \<le> j \<and> j < Suc i + k \<longrightarrow> ?d i \<noteq> ?s j \<and> ?d i \<noteq> ?d j"
    proof (intro allI impI)
      fix j assume j: "Suc i \<le> j \<and> j < Suc i + k"
      have "?d j \<noteq> ?d i" using dd[of j] j by simp
      moreover have "?s j \<noteq> ?d i" using disj[of j i] j by simp
      ultimately show "?d i \<noteq> ?s j \<and> ?d i \<noteq> ?d j" by metis
    qed
    then have "mem' (?d i) = mem1 (?d i)" by (rule frame1)
    then show ?thesis using m1_d by simp
  qed
  have si: "mem' (?s i) = None"
  proof -
    have "\<forall>j. Suc i \<le> j \<and> j < Suc i + k \<longrightarrow> ?s i \<noteq> ?s j \<and> ?s i \<noteq> ?d j"
    proof (intro allI impI)
      fix j assume j: "Suc i \<le> j \<and> j < Suc i + k"
      have "?s j \<noteq> ?s i" using ss[of j] j by simp
      moreover have "?s i \<noteq> ?d j" using disj[of i j] j by simp
      ultimately show "?s i \<noteq> ?s j \<and> ?s i \<noteq> ?d j" by metis
    qed
    then have "mem' (?s i) = mem1 (?s i)" by (rule frame1)
    then show ?thesis using m1_s by simp
  qed
  have moved: "\<forall>j. i \<le> j \<and> j < i + Suc k \<longrightarrow>
      mem' (?d j) = mem (?s j) \<and> mem' (?s j) = None"
  proof (intro allI impI)
    fix j assume j: "i \<le> j \<and> j < i + Suc k"
    show "mem' (?d j) = mem (?s j) \<and> mem' (?s j) = None"
    proof (cases "j = i")
      case True
      then show ?thesis using di si x by simp
    next
      case False
      then have "Suc i \<le> j" "j < Suc i + k" using j by simp_all
      then show ?thesis by (rule rest)
    qed
  qed
  have frame: "\<forall>a. (\<forall>j. i \<le> j \<and> j < i + Suc k \<longrightarrow> a \<noteq> ?s j \<and> a \<noteq> ?d j) \<longrightarrow> mem' a = mem a"
  proof (intro allI impI)
    fix a assume a: "\<forall>j. i \<le> j \<and> j < i + Suc k \<longrightarrow> a \<noteq> ?s j \<and> a \<noteq> ?d j"
    then have "\<forall>j. Suc i \<le> j \<and> j < Suc i + k \<longrightarrow> a \<noteq> ?s j \<and> a \<noteq> ?d j" by simp
    then have "mem' a = mem1 a" by (rule frame1)
    moreover have "a \<noteq> ?s i" "a \<noteq> ?d i" using a by simp_all
    ultimately show "mem' a = mem a" using m1_other[of a] by simp
  qed
  show ?case using moved frame by blast
qed

lemma slot_end: "j < n \<Longrightarrow> j * sz + sz \<le> n * (sz::nat)"
proof -
  assume "j < n"
  then have "Suc j * sz \<le> n * sz" by (intro mult_le_mono1) simp
  then show ?thesis by (simp add: add.commute)
qed

lemma slots_apart:
  assumes sz: "0 < sizeof T"
    and within: "view_within T v old"
    and fits: "count v * sizeof T \<le> block_size nb"
    and disj: "blocks_disjoint nb old"
    and j: "j < count v" and j': "j' < count v"
  shows "base v + j * sizeof T \<noteq> address nb + j' * sizeof T"
proof -
  have a: "j * sizeof T + sizeof T \<le> count v * sizeof T" using j by (rule slot_end)
  have b: "j' * sizeof T + sizeof T \<le> count v * sizeof T" using j' by (rule slot_end)
  show ?thesis
    using a b sz within fits disj unfolding view_within_def blocks_disjoint_def by linarith
qed

lemma relocation_success:
  assumes tr: "uninitialized_destructive_move T v nb mem = (Inr u, mem')"
    and sz: "0 < sizeof T"
    and within: "view_within T v old"
    and live: "view_live T v mem"
    and fits: "count v * sizeof T \<le> block_size nb"
    and disj: "blocks_disjoint nb old"
  shows "\<forall>i < count v.
           mem' (address nb + i * sizeof T) = mem (base v + i * sizeof T)
           \<and> mem' (base v + i * sizeof T) = None"
proof -
  have run: "move_range T (base v) (address nb) 0 (count v) mem = (None, mem')"
    using tr by (auto simp: uninitialized_destructive_move_def view_size_def
        split: prod.splits option.splits)
  have apart: "\<forall>j < 0 + count v. \<forall>j' < 0 + count v.
      base v + j * sizeof T \<noteq> address nb + j' * sizeof T"
    using slots_apart[OF sz within fits disj] by simp
  have alive: "\<forall>j. 0 \<le> j \<and> j < 0 + count v \<longrightarrow> mem (base v + j * sizeof T) \<noteq> None"
    using live by (simp add: view_live_iff)
  show ?thesis
    using move_range_success[OF sz apart run alive] by simp
qed

lemma change_block_success:
  assumes ch: "change_block T H v nb s w = (Inr u, s', w')"
  shows "s' = s\<lparr>block_field := nb\<rparr>
       \<and> uninitialized_destructive_move T v nb (objects w) = (Inr (), objects w')"
  using ch by (auto simp: change_block_def split: prod.splits sum.splits)

lemma allocate_block_success:
  assumes "allocate_block H s n al w = (Inr nb, w1)"
  shows "(n = 0 \<and> nb = empty_block \<and> w1 = w)
       \<or> (n \<noteq> 0 \<and> fst (allocate_fn H (heap w) (stored_argument s) n al) = Inr nb)"
  using assms by (auto simp: allocate_block_def Heap_allocate_def split: if_splits prod.splits)

lemma resize_success:
  assumes alloc: "allocate_block H s n (alignof T) w = (Inr nb, w1)"
    and ch: "change_block T H v nb s w1 = (Inr u, s', w')"
    and sz: "0 < sizeof T"
    and within: "view_within T v (block_field s)"
    and live: "view_live T v (objects w)"
    and enough: "count v * sizeof T \<le> n"
    and ok: "allocate_ok H (heap w) (stored_argument s) n (alignof T) (block_field s)"
  shows "block_field s' = nb \<and> n \<le> block_size nb
       \<and> (n \<noteq> 0 \<longrightarrow> fst (allocate_fn H (heap w) (stored_argument s) n (alignof T)) = Inr nb)
       \<and> (n = 0 \<longrightarrow> nb = empty_block)
       \<and> (\<forall>i < count v.
             objects w' (address nb + i * sizeof T) = objects w (base v + i * sizeof T)
             \<and> objects w' (base v + i * sizeof T) = None)"
proof -
  have o1: "objects w1 = objects w" using allocate_block_world(1)[OF alloc] .
  have s': "s' = s\<lparr>block_field := nb\<rparr>"
    and tr: "uninitialized_destructive_move T v nb (objects w) = (Inr (), objects w')"
    using change_block_success[OF ch] o1 by simp_all
  have nb: "n \<le> block_size nb \<and> blocks_disjoint nb (block_field s)"
  proof (cases "n = 0")
    case True
    then have "nb = empty_block" using allocate_block_success[OF alloc] by simp
    then show ?thesis using True by (simp add: empty_block_def blocks_disjoint_def)
  next
    case False
    then have "fst (allocate_fn H (heap w) (stored_argument s) n (alignof T)) = Inr nb"
      using allocate_block_success[OF alloc] by simp
    then show ?thesis using ok by (simp add: allocate_ok_def)
  qed
  have fits: "count v * sizeof T \<le> block_size nb" using enough nb by simp
  have "\<forall>i < count v.
           objects w' (address nb + i * sizeof T) = objects w (base v + i * sizeof T)
           \<and> objects w' (base v + i * sizeof T) = None"
    using relocation_success[OF tr sz within live fits] nb by blast
  then show ?thesis using s' nb allocate_block_success[OF alloc] by auto
qed

lemma reserve_relocates:
  assumes res: "reserve T H GP min_additional_bytes constructed s w = (Inr u, s', w')"
    and sz: "0 < sizeof T"
    and within: "view_within T constructed (block s)"
    and live: "view_live T constructed (objects w)"
    and growth: "growth_size_ok GP (block_size (block s)) min_additional_bytes
                   (max_size H (argument s))"
    and heap: "\<And>n. growth_size GP (block_size (block s)) min_additional_bytes
                   (max_size H (argument s)) = Inr n
                 \<Longrightarrow> allocate_ok H (heap w) (argument s) n (alignof T) (block s)"
  shows "min_additional_bytes + count constructed * sizeof T \<le> block_size (block s')
       \<and> (\<forall>i < count constructed.
             objects w (base constructed + i * sizeof T) \<noteq> None
             \<and> objects w' (address (block s') + i * sizeof T)
                 = objects w (base constructed + i * sizeof T)
             \<and> objects w' (base constructed + i * sizeof T) = None)"
proof -
  obtain n where n: "growth_size GP (block_size (block_field s)) min_additional_bytes
      (max_size H (argument s)) = Inr n"
    using res by (auto simp: reserve_def split: sum.splits)
  obtain nb w1 where alloc: "allocate_block H s n (alignof T) w = (Inr nb, w1)"
    and ch: "change_block T H constructed nb s w1 = (Inr u, s', w')"
    using res n by (auto simp: reserve_def split: sum.splits prod.splits)
  have bound: "block_size (block_field s) + min_additional_bytes \<le> n"
    using growth n by (simp add: growth_size_ok_def block_def)
  have live_bytes: "count constructed * sizeof T \<le> block_size (block_field s)"
    using within by (simp add: view_within_def block_def)
  have ok: "allocate_ok H (heap w) (stored_argument s) n (alignof T) (block_field s)"
    using heap[of n] n by (simp add: block_def argument_def)
  have enough: "count constructed * sizeof T \<le> n" using bound live_bytes by simp
  note R = resize_success[OF alloc ch sz within[unfolded block_def] live enough ok]
  have "min_additional_bytes + count constructed * sizeof T \<le> block_size (block s')"
    using R bound live_bytes by (simp add: block_def)
  moreover have "\<forall>i < count constructed. objects w (base constructed + i * sizeof T) \<noteq> None"
    using live by (simp add: view_live_iff)
  ultimately show ?thesis using R by (simp add: block_def)
qed

lemma shrink_to_fit_relocates:
  assumes shr: "shrink_to_fit T H GP v s w = (Inr u, s', w')"
    and sz: "0 < sizeof T"
    and fits: "count v * sizeof T < 2 ^ 64"
    and within: "view_within T v (block s)"
    and live: "view_live T v (objects w)"
    and target: "t = shrink_size GP (block_size (block s)) (count v * sizeof T)"
    and shrink: "shrink_size_ok GP (block_size (block s)) (count v * sizeof T)"
    and heap: "allocate_ok H (heap w) (argument s) t (alignof T) (block s)"
  shows "t \<le> block_size (block s')
       \<and> (allocate_exact H (heap w) (argument s) t (alignof T) \<longrightarrow> block_size (block s') = t)
       \<and> (\<forall>i < count v.
             objects w' (address (block s') + i * sizeof T) = objects w (base v + i * sizeof T)
             \<and> objects w' (base v + i * sizeof T) = None)"
proof -
  have wrap: "size_type_wrap (count v * sizeof T) = count v * sizeof T"
    using fits by (simp add: size_type_wrap_def)
  obtain nb w1 where alloc: "allocate_block H s t (alignof T) w = (Inr nb, w1)"
    and ch: "change_block T H v nb s w1 = (Inr u, s', w')"
    using shr target
    by (auto simp: shrink_to_fit_def Let_def view_size_def wrap block_def
        split: sum.splits prod.splits)
  have enough: "count v * sizeof T \<le> t"
    using shrink target by (simp add: shrink_size_ok_def)
  have ok: "allocate_ok H (heap w) (stored_argument s) t (alignof T) (block_field s)"
    using heap by (simp add: block_def argument_def)
  note R = resize_success[OF alloc ch sz within[unfolded block_def] live enough ok]
  have exact: "allocate_exact H (heap w) (argument s) t (alignof T) \<longrightarrow> block_size (block s') = t"
  proof (cases "t = 0")
    case True
    then show ?thesis using R by (simp add: block_def empty_block_def)
  next
    case False
    then show ?thesis using R by (auto simp: allocate_exact_def block_def argument_def)
  qed
  show ?thesis using R exact by (simp add: block_def)
qed

text \<open>
  Claim C2. Let \<open>reserve\<close> return normally, for an element type of non-zero size and a
  view that lies within the current block and whose elements are alive, and let the
  policy and the allocator have kept their contracts in this call. Then the new block is
  at least \<open>min_additional_bytes\<close> plus the live bytes large; element \<open>i\<close> of the view is
  alive at index \<open>i\<close> of the new block with the value it had, and its old storage holds
  no object any more.
\<close>

theorem reserve_success:
  assumes res: "reserve T H GP min_additional_bytes constructed s w = (Inr u, s', w')"
    and sz: "0 < sizeof T"
    and within: "view_within T constructed (block s)"
    and live: "view_live T constructed (objects w)"
    and growth: "growth_size_ok GP (block_size (block s)) min_additional_bytes
                   (max_size H (argument s))"
    and heap: "\<And>n. growth_size GP (block_size (block s)) min_additional_bytes
                   (max_size H (argument s)) = Inr n
                 \<Longrightarrow> allocate_ok H (heap w) (argument s) n (alignof T) (block s)"
  shows "min_additional_bytes + count constructed * sizeof T \<le> block_size (block s')
       \<and> (\<forall>i < count constructed.
             objects w (base constructed + i * sizeof T) \<noteq> None
             \<and> objects w' (address (block s') + i * sizeof T)
                 = objects w (base constructed + i * sizeof T)
             \<and> objects w' (base constructed + i * sizeof T) = None)"
  using assms by (rule reserve_relocates)

theorem reserve_success_witness:
  "fst (grown arena_heap doubling_growth) = Inr ()
   \<and> view_within elem8 view3 (block storage3)
   \<and> view_live elem8 view3 (objects (world3 10 20 30))
   \<and> 64 + count view3 * sizeof elem8
        \<le> block_size (block (fst (snd (grown arena_heap doubling_growth))))
   \<and> objects (snd (snd (grown arena_heap doubling_growth)))
        (address (block (fst (snd (grown arena_heap doubling_growth)))) + 1 * sizeof elem8)
       = objects (world3 10 20 30) (base view3 + 1 * sizeof elem8)
   \<and> objects (snd (snd (grown arena_heap doubling_growth))) (base view3 + 1 * sizeof elem8) = None"
proof -
  let ?s' = "fst (snd (grown arena_heap doubling_growth))"
  let ?w' = "snd (snd (grown arena_heap doubling_growth))"
  have ok: "fst (grown arena_heap doubling_growth) = Inr ()"
    by (simp add: grown_arena_doubling)
  then have res: "reserve elem8 arena_heap doubling_growth 64 view3 storage3 (world3 10 20 30)
      = (Inr (), ?s', ?w')"
    by (simp add: grown_def prod_eq_iff)
  have sz: "0 < sizeof elem8" by (simp add: elem8_def)
  have within: "view_within elem8 view3 (block storage3)"
    by (simp add: view_within_def view3_def storage3_def block_def elem8_def)
  have growth: "growth_size_ok doubling_growth (block_size (block storage3)) 64
      (max_size arena_heap (argument storage3))"
    by (simp add: growth_size_ok_def fixture_defs storage_defs)
  have heap: "\<And>n. growth_size doubling_growth (block_size (block storage3)) 64
        (max_size arena_heap (argument storage3)) = Inr n
      \<Longrightarrow> allocate_ok arena_heap (heap (world3 10 20 30)) (argument storage3) n
            (alignof elem8) (block storage3)"
    by (auto simp: allocate_ok_def blocks_disjoint_def fixture_defs storage_defs)
  note W = reserve_success [OF res sz within view3_live growth heap]
  have one: "(1::nat) < count view3" by (simp add: view3_def)
  have "objects ?w' (address (block ?s') + 1 * sizeof elem8)
          = objects (world3 10 20 30) (base view3 + 1 * sizeof elem8)
      \<and> objects ?w' (base view3 + 1 * sizeof elem8) = None"
    using W one by blast
  then show ?thesis using ok within view3_live W by blast
qed

subsection \<open>\<open>shrink_to_fit\<close> after \<open>reserve\<close>, and twice in a row\<close>

lemma shrink_to_fit_cases:
  assumes "shrink_to_fit T H GP v s w = (Inr u, s', w')"
  shows "\<exists>nb w1.
      allocate_block H s (shrink_size GP (block_size (block_field s))
          (size_type_wrap (count v * sizeof T))) (alignof T) w = (Inr nb, w1)
      \<and> change_block T H v nb s w1 = (Inr u, s', w')"
  using assms
  by (auto simp: shrink_to_fit_def Let_def view_size_def split: sum.splits prod.splits)

lemma shrink_to_fit_adopts:
  assumes sh: "shrink_to_fit T H GP v s w = (Inr u, s', w')"
    and t: "t = shrink_size GP (block_size (block s)) (size_type_wrap (count v * sizeof T))"
  shows "(t = 0 \<longrightarrow> block s' = empty_block)
       \<and> (t \<noteq> 0 \<longrightarrow> fst (allocate_fn H (heap w) (argument s) t (alignof T)) = Inr (block s'))"
proof -
  obtain nb w1 where alloc: "allocate_block H s t (alignof T) w = (Inr nb, w1)"
    and ch: "change_block T H v nb s w1 = (Inr u, s', w')"
    using shrink_to_fit_cases[OF sh] t by (auto simp: block_def)
  have s': "block s' = nb" using change_block_success[OF ch] by (simp add: block_def)
  show ?thesis
    using allocate_block_success[OF alloc] s' by (auto simp: argument_def)
qed

text \<open>
  Claim C7, as amended. Let two calls of \<open>shrink_to_fit\<close> in a row, with views of the same
  element count, both return normally. Let the policy return, for the block that the
  first call left, the same target \<open>t\<close> as it returned in the first call; and, if \<open>t\<close> is not
  zero, let the allocator return in the second call a block of the same size as in the
  first, the request being the same. Then the block has the same size after the second
  call as after the first. Nothing is assumed about how the size of the block relates to
  the size requested.
\<close>

theorem shrink_to_fit_twice:
  assumes first: "shrink_to_fit T H GP v s w = (Inr u1, s1, w1)"
    and second: "shrink_to_fit T H GP v1 s1 w1 = (Inr u2, s2, w2)"
    and same: "count v1 = count v"
    and target: "t = shrink_size GP (block_size (block s)) (size_type_wrap (count v * sizeof T))"
    and same_target:
      "shrink_size GP (block_size (block s1)) (size_type_wrap (count v * sizeof T)) = t"
    and same_size: "t \<noteq> 0 \<Longrightarrow>
      allocated_size H (heap w1) (argument s1) t (alignof T)
        = allocated_size H (heap w) (argument s) t (alignof T)"
  shows "block_size (block s2) = block_size (block s1)"
proof -
  note one = shrink_to_fit_adopts[OF first target]
  have t2: "t = shrink_size GP (block_size (block s1)) (size_type_wrap (count v1 * sizeof T))"
    using same_target same by simp
  note two = shrink_to_fit_adopts[OF second t2]
  show ?thesis
  proof (cases "t = 0")
    case True
    then show ?thesis using one two by simp
  next
    case False
    then have "allocated_size H (heap w) (argument s) t (alignof T) = Some (block_size (block s1))"
      and "allocated_size H (heap w1) (argument s1) t (alignof T) = Some (block_size (block s2))"
      using one two by (simp_all add: allocated_size_def)
    then show ?thesis using same_size[OF False] by simp
  qed
qed

theorem shrink_to_fit_twice_witness:
  "fst (shrunk_once rounding_heap doubling_growth) = Inr ()
   \<and> fst (shrunk_twice rounding_heap doubling_growth) = Inr ()
   \<and> block_size (block (fst (snd (shrunk_once rounding_heap doubling_growth)))) = 32
   \<and> block_size (block (fst (snd (shrunk_twice rounding_heap doubling_growth))))
       = block_size (block (fst (snd (shrunk_once rounding_heap doubling_growth))))
   \<and> \<not> allocate_exact rounding_heap (heap (snd (snd (grown rounding_heap doubling_growth))))
         (argument (fst (snd (grown rounding_heap doubling_growth)))) 24 (alignof elem8)"
proof -
  let ?s = "fst (snd (grown rounding_heap doubling_growth))"
  let ?w = "snd (snd (grown rounding_heap doubling_growth))"
  let ?s1 = "fst (snd (shrunk_once rounding_heap doubling_growth))"
  let ?w1 = "snd (snd (shrunk_once rounding_heap doubling_growth))"
  let ?s2 = "fst (snd (shrunk_twice rounding_heap doubling_growth))"
  let ?w2 = "snd (snd (shrunk_twice rounding_heap doubling_growth))"
  have ok1: "fst (shrunk_once rounding_heap doubling_growth) = Inr ()"
    by (simp add: shrunk_once_rounding_eq)
  then have first: "shrink_to_fit elem8 rounding_heap doubling_growth \<lparr>base = 48, count = 3\<rparr>
      ?s ?w = (Inr (), ?s1, ?w1)"
    by (simp add: shrunk_once_def prod_eq_iff)
  have ok2: "fst (shrunk_twice rounding_heap doubling_growth) = Inr ()"
    by (simp add: shrunk_twice_rounding)
  then have second: "shrink_to_fit elem8 rounding_heap doubling_growth \<lparr>base = 144, count = 3\<rparr>
      ?s1 ?w1 = (Inr (), ?s2, ?w2)"
    by (simp add: shrunk_twice_def prod_eq_iff)
  have same: "count \<lparr>base = 144, count = 3\<rparr> = count \<lparr>base = 48, count = 3\<rparr>" by simp
  have target: "24 = shrink_size doubling_growth (block_size (block ?s))
      (size_type_wrap (count \<lparr>base = 48, count = 3\<rparr> * sizeof elem8))"
    by (simp add: doubling_growth_def size_type_wrap_def elem8_def)
  have same_target: "shrink_size doubling_growth (block_size (block ?s1))
      (size_type_wrap (count \<lparr>base = 48, count = 3\<rparr> * sizeof elem8)) = 24"
    by (simp add: doubling_growth_def size_type_wrap_def elem8_def)
  have same_size: "(24::nat) \<noteq> 0 \<Longrightarrow>
      allocated_size rounding_heap (heap ?w1) (argument ?s1) 24 (alignof elem8)
        = allocated_size rounding_heap (heap ?w) (argument ?s) 24 (alignof elem8)"
    by (simp only: grown_rounding_doubling shrunk_once_rounding_eq fst_conv snd_conv)
      (simp add: allocated_size_def argument_def rounding_heap_def elem8_def)
  have inexact: "\<not> allocate_exact rounding_heap (heap ?w) (argument ?s) 24 (alignof elem8)"
    by (simp only: grown_rounding_doubling fst_conv snd_conv)
      (simp add: allocate_exact_def argument_def rounding_heap_def elem8_def)
  have size1: "block_size (block ?s1) = 32"
    by (simp only: shrunk_once_rounding_eq fst_conv snd_conv) (simp add: block_def)
  show ?thesis
    using ok1 ok2 size1 inexact
      shrink_to_fit_twice [OF first second same target same_target same_size]
    by simp
qed

text \<open>
  With a policy that halves the block (never below the live bytes, as its contract
  demands) and an allocator that returns exactly what is asked for, the 96-byte block
  holding 24 live bytes is 48 bytes after the first \<open>shrink_to_fit\<close> and 24 bytes after the
  second.
\<close>

theorem shrink_to_fit_twice_counterexample:
  "fst (shrunk_once arena_heap halving_shrink) = Inr ()
   \<and> fst (shrunk_twice arena_heap halving_shrink) = Inr ()
   \<and> block_size (block (fst (snd (grown arena_heap halving_shrink)))) = 96
   \<and> block_size (block (fst (snd (shrunk_once arena_heap halving_shrink)))) = 48
   \<and> block_size (block (fst (snd (shrunk_twice arena_heap halving_shrink)))) = 24
   \<and> block_size (block (fst (snd (shrunk_twice arena_heap halving_shrink))))
       \<noteq> block_size (block (fst (snd (shrunk_once arena_heap halving_shrink))))
   \<and> shrink_size_ok halving_shrink 96 24 \<and> shrink_size_ok halving_shrink 48 24"
  by (simp only: grown_evals shrunk_once_arena_halving shrunk_twice_arena_halving block_def
      fst_conv snd_conv)
    (simp add: shrink_size_ok_def halving_shrink_def)

text \<open>
  Claim C6, as amended. \<open>shrink_to_fit\<close> is \<open>reserve\<close> run with the target
  \<open>shrink_size(block.size, count * sizeof(T))\<close> in place of the one the growth policy
  computes: the same allocation, relocation, deallocation and adoption. The product is
  computed in \<open>size_type\<close>; it is the number of live bytes whenever that is representable,
  as it is for every view of a block that exists. Consequently, if
  \<open>reserve\<close> and a \<open>shrink_to_fit\<close> that follows it immediately (with the view re-derived
  from the new block) both return normally, for a well-formed view and with the policy
  and the allocator keeping their contracts, then the final block is at least as large as
  the target \<open>t\<close> of the second call, exactly as large when the allocator returned exactly
  what was asked for, and element \<open>i\<close> of the original view is alive at index \<open>i\<close> of the
  final block with the value it had.
\<close>

theorem shrink_to_fit_after_reserve:
  assumes res: "reserve T H GP min_additional_bytes constructed s w = (Inr u1, s1, w1)"
    and shr: "shrink_to_fit T H GP \<lparr>base = address (block s1), count = count constructed\<rparr> s1 w1
                = (Inr u2, s2, w2)"
    and sz: "0 < sizeof T"
    and fits: "count constructed * sizeof T < 2 ^ 64"
    and within: "view_within T constructed (block s)"
    and live: "view_live T constructed (objects w)"
    and growth: "growth_size_ok GP (block_size (block s)) min_additional_bytes
                   (max_size H (argument s))"
    and heap1: "\<And>n. growth_size GP (block_size (block s)) min_additional_bytes
                   (max_size H (argument s)) = Inr n
                 \<Longrightarrow> allocate_ok H (heap w) (argument s) n (alignof T) (block s)"
    and target: "t = shrink_size GP (block_size (block s1)) (count constructed * sizeof T)"
    and shrink: "shrink_size_ok GP (block_size (block s1)) (count constructed * sizeof T)"
    and heap2: "allocate_ok H (heap w1) (argument s1) t (alignof T) (block s1)"
  shows "shrink_to_fit T H GP v s0 w0
           = reserve T H
               (GP\<lparr>growth_size := \<lambda>old_bytes min_bytes max_bytes.
                      Inr (shrink_size GP (block_size (block s0))
                             (size_type_wrap (count v * sizeof T)))\<rparr>)
               m v s0 w0
       \<and> (count v * sizeof T < 2 ^ 64 \<longrightarrow>
            size_type_wrap (count v * sizeof T) = count v * sizeof T)
       \<and> t \<le> block_size (block s2)
       \<and> (allocate_exact H (heap w1) (argument s1) t (alignof T) \<longrightarrow> block_size (block s2) = t)
       \<and> (\<forall>i < count constructed.
             objects w (base constructed + i * sizeof T) \<noteq> None
             \<and> objects w2 (address (block s2) + i * sizeof T)
                 = objects w (base constructed + i * sizeof T))"
proof -
  let ?v1 = "\<lparr>base = address (block s1), count = count constructed\<rparr>"
  have same_sequence: "shrink_to_fit T H GP v s0 w0
           = reserve T H
               (GP\<lparr>growth_size := \<lambda>old_bytes min_bytes max_bytes.
                      Inr (shrink_size GP (block_size (block s0))
                             (size_type_wrap (count v * sizeof T)))\<rparr>)
               m v s0 w0"
    by (simp add: shrink_to_fit_def reserve_def Let_def view_size_def block_def)
  have no_wrap: "count v * sizeof T < 2 ^ 64 \<longrightarrow>
      size_type_wrap (count v * sizeof T) = count v * sizeof T"
    by (simp add: size_type_wrap_def)
  note R1 = reserve_relocates[OF res sz within live growth heap1]
  have within1: "view_within T ?v1 (block s1)"
    using R1 by (simp add: view_within_def)
  have live1: "view_live T ?v1 (objects w1)"
    using R1 by (simp add: view_live_iff)
  have fits1: "count ?v1 * sizeof T < 2 ^ 64" using fits by simp
  have target1: "t = shrink_size GP (block_size (block s1)) (count ?v1 * sizeof T)"
    using target by simp
  have shrink1: "shrink_size_ok GP (block_size (block s1)) (count ?v1 * sizeof T)"
    using shrink by simp
  note R2 = shrink_to_fit_relocates[OF shr sz fits1 within1 live1 target1 shrink1 heap2]
  have preserved: "\<forall>i < count constructed.
             objects w (base constructed + i * sizeof T) \<noteq> None
             \<and> objects w2 (address (block s2) + i * sizeof T)
                 = objects w (base constructed + i * sizeof T)"
    using R1 R2 by simp
  show ?thesis using same_sequence no_wrap R2 preserved by blast
qed

theorem shrink_to_fit_after_reserve_witness:
  "fst (grown arena_heap doubling_growth) = Inr ()
   \<and> fst (shrunk_once arena_heap doubling_growth) = Inr ()
   \<and> block_size (block (fst (snd (shrunk_once arena_heap doubling_growth)))) = 24
   \<and> shrink_size doubling_growth
        (block_size (block (fst (snd (grown arena_heap doubling_growth)))))
        (count view3 * sizeof elem8) = 24
   \<and> objects (snd (snd (shrunk_once arena_heap doubling_growth)))
        (address (block (fst (snd (shrunk_once arena_heap doubling_growth)))) + 2 * sizeof elem8)
       = objects (world3 10 20 30) (base view3 + 2 * sizeof elem8)
   \<and> shrink_to_fit elem8 arena_heap doubling_growth view3 storage3 (world3 10 20 30)
       = reserve elem8 arena_heap
           (doubling_growth\<lparr>growth_size := \<lambda>old_bytes min_bytes max_bytes.
              Inr (shrink_size doubling_growth (block_size (block storage3))
                     (size_type_wrap (count view3 * sizeof elem8)))\<rparr>)
           0 view3 storage3 (world3 10 20 30)
   \<and> size_type_wrap (count view3 * sizeof elem8) = count view3 * sizeof elem8"
proof -
  let ?s1 = "fst (snd (grown arena_heap doubling_growth))"
  let ?w1 = "snd (snd (grown arena_heap doubling_growth))"
  let ?s2 = "fst (snd (shrunk_once arena_heap doubling_growth))"
  let ?w2 = "snd (snd (shrunk_once arena_heap doubling_growth))"
  have ok1: "fst (grown arena_heap doubling_growth) = Inr ()"
    by (simp add: grown_arena_doubling)
  then have res: "reserve elem8 arena_heap doubling_growth 64 view3 storage3 (world3 10 20 30)
      = (Inr (), ?s1, ?w1)"
    by (simp add: grown_def prod_eq_iff)
  have ok2: "fst (shrunk_once arena_heap doubling_growth) = Inr ()"
    by (simp add: shrunk_once_arena_doubling)
  have v1: "\<lparr>base = address (block ?s1), count = count view3\<rparr> = \<lparr>base = 48, count = 3\<rparr>"
    by (simp add: grown_arena_doubling block_def view3_def)
  have shr: "shrink_to_fit elem8 arena_heap doubling_growth
        \<lparr>base = address (block ?s1), count = count view3\<rparr> ?s1 ?w1 = (Inr (), ?s2, ?w2)"
    using ok2 unfolding v1 by (simp add: shrunk_once_def prod_eq_iff)
  have sz: "0 < sizeof elem8" by (simp add: elem8_def)
  have fits: "count view3 * sizeof elem8 < 2 ^ 64" by (simp add: view3_def elem8_def)
  have within: "view_within elem8 view3 (block storage3)"
    by (simp add: view_within_def view3_def storage3_def block_def elem8_def)
  have growth: "growth_size_ok doubling_growth (block_size (block storage3)) 64
      (max_size arena_heap (argument storage3))"
    by (simp add: growth_size_ok_def fixture_defs storage_defs)
  have heap1: "\<And>n. growth_size doubling_growth (block_size (block storage3)) 64
        (max_size arena_heap (argument storage3)) = Inr n
      \<Longrightarrow> allocate_ok arena_heap (heap (world3 10 20 30)) (argument storage3) n
            (alignof elem8) (block storage3)"
    by (auto simp: allocate_ok_def blocks_disjoint_def fixture_defs storage_defs)
  have target: "24 = shrink_size doubling_growth (block_size (block ?s1))
      (count view3 * sizeof elem8)"
    by (simp add: doubling_growth_def view3_def elem8_def)
  have shrink: "shrink_size_ok doubling_growth (block_size (block ?s1))
      (count view3 * sizeof elem8)"
    by (simp add: shrink_size_ok_def doubling_growth_def)
  have heap2: "allocate_ok arena_heap (heap ?w1) (argument ?s1) 24 (alignof elem8) (block ?s1)"
    by (simp only: grown_arena_doubling fst_conv snd_conv)
      (simp add: allocate_ok_def blocks_disjoint_def block_def argument_def arena_heap_def
        elem8_def)
  have exact: "allocate_exact arena_heap (heap ?w1) (argument ?s1) 24 (alignof elem8)"
    by (simp only: grown_arena_doubling fst_conv snd_conv)
      (simp add: allocate_exact_def argument_def arena_heap_def elem8_def)
  note W = shrink_to_fit_after_reserve
    [OF res shr sz fits within view3_live growth heap1 target shrink heap2,
     of view3 storage3 "world3 10 20 30" 0]
  have two: "(2::nat) < count view3" by (simp add: view3_def)
  have moved: "objects ?w2 (address (block ?s2) + 2 * sizeof elem8)
          = objects (world3 10 20 30) (base view3 + 2 * sizeof elem8)"
    using W two by blast
  have size: "block_size (block ?s2) = 24" using W exact by blast
  have same: "shrink_to_fit elem8 arena_heap doubling_growth view3 storage3 (world3 10 20 30)
       = reserve elem8 arena_heap
           (doubling_growth\<lparr>growth_size := \<lambda>old_bytes min_bytes max_bytes.
              Inr (shrink_size doubling_growth (block_size (block storage3))
                     (size_type_wrap (count view3 * sizeof elem8)))\<rparr>)
           0 view3 storage3 (world3 10 20 30)"
    using W by blast
  have no_wrap: "size_type_wrap (count view3 * sizeof elem8) = count view3 * sizeof elem8"
    using W fits by blast
  show ?thesis using ok1 ok2 size target[symmetric] moved same no_wrap by blast
qed

text \<open>
  With an allocator that rounds sizes up to a multiple of 16, which its contract allows,
  \<open>shrink_to_fit\<close> after \<open>reserve\<close> asks for the 24 bytes that \<open>shrink_size\<close> returns and
  ends up with a block of 32 bytes.
\<close>

theorem shrink_to_fit_after_reserve_counterexample:
  "fst (grown rounding_heap doubling_growth) = Inr ()
   \<and> fst (shrunk_once rounding_heap doubling_growth) = Inr ()
   \<and> block (fst (snd (grown rounding_heap doubling_growth))) = \<lparr>address = 48, block_size = 96\<rparr>
   \<and> shrink_size doubling_growth
         (block_size (block (fst (snd (grown rounding_heap doubling_growth)))))
         (count view3 * sizeof elem8) = 24
   \<and> block_size (block (fst (snd (shrunk_once rounding_heap doubling_growth)))) = 32
   \<and> block_size (block (fst (snd (shrunk_once rounding_heap doubling_growth))))
       \<noteq> shrink_size doubling_growth
           (block_size (block (fst (snd (grown rounding_heap doubling_growth)))))
           (count view3 * sizeof elem8)
   \<and> allocate_ok rounding_heap (heap (snd (snd (grown rounding_heap doubling_growth))))
         1048576 24 8 (block (fst (snd (grown rounding_heap doubling_growth))))"
  by (simp only: grown_evals shrunk_once_rounding block_def fst_conv snd_conv)
    (simp add: allocate_ok_def blocks_disjoint_def doubling_growth_def rounding_heap_def
      view3_def elem8_def)

end
